theory Spec2Isabelle
  imports Main "HOL-Library.AList"
begin

section \<open>JavaScript preliminaries\<close>

text \<open>
  The numbers the modelled code computes with are integers: semitones, fret numbers, string
  indexes, history indexes. A JavaScript number is a double; an integer-valued double is
  modelled as the \<open>int\<close> it denotes. Sums and differences of array indexes, array lengths
  and pitch classes are far below \<open>2 ^ 53\<close> and exact. The one sum of numbers that nothing
  bounds, the semitone plus the fret in \<^verbatim>\<open>getNoteAt\<close>, is rounded as the addition of doubles
  rounds it (\<open>js_add\<close> below).
  An exception is a value of type \<open>js_error\<close> on the left of a sum: a TypeError the
  engine raises, or an \<^verbatim>\<open>Error\<close> the code throws with its message.
\<close>

datatype js_error = TypeError | Error string

text \<open>
  The remainder operator \<^verbatim>\<open>a % b\<close> on integers with \<open>b \<noteq> 0\<close>: the division truncates
  towards zero, so the result takes the sign of the dividend. A result \<^verbatim>\<open>-0\<close> is the
  integer \<open>0\<close> here; \<^verbatim>\<open>===\<close> does not tell the two apart either.
\<close>

definition js_rem :: "int \<Rightarrow> int \<Rightarrow> int" where
  "js_rem a b = sgn a * (\<bar>a\<bar> mod \<bar>b\<bar>)"

text \<open>The number of binary digits of a natural number.\<close>

fun bit_length :: "nat \<Rightarrow> nat" where
  "bit_length n = (if n = 0 then 0 else Suc (bit_length (n div 2)))"

declare bit_length.simps [simp del]

text \<open>
  The double nearest to an integer: the integer itself when it has at most 53 binary
  digits, else its leading 53 digits rounded to nearest, ties to the even one; \<open>None\<close> when
  the rounded magnitude reaches \<open>2 ^ 1024\<close>, which is \<^verbatim>\<open>Infinity\<close>.
\<close>

definition round_double :: "int \<Rightarrow> int option" where
  "round_double x =
    (let a = nat \<bar>x\<bar>; n = bit_length a in
     if n \<le> 53 then Some x
     else
       let q = 2 ^ (n - 53); m = a div q; r = a mod q;
           m' = (if 2 * r < q then m else if q < 2 * r then m + 1
                 else if even m then m else m + 1)
       in if 2 ^ 1024 \<le> m' * q then None else Some (sgn x * int (m' * q)))"

text \<open>
  \<^verbatim>\<open>a + b\<close> for two integer-valued doubles: the exact sum, rounded to a double. Within the
  safe integers, up to \<^verbatim>\<open>Number.MAX_SAFE_INTEGER\<close> in magnitude, the sum is exact.
\<close>

definition js_add :: "int \<Rightarrow> int \<Rightarrow> int option" where
  "js_add a b = round_double (a + b)"

definition MAX_SAFE_INTEGER :: int where
  "MAX_SAFE_INTEGER = 2 ^ 53 - 1"

definition safe_integer :: "int \<Rightarrow> bool" where
  "safe_integer n = (\<bar>n\<bar> \<le> MAX_SAFE_INTEGER)"

section \<open>MusicTheory (src/utils/music-theory.js)\<close>

record pitch =
  name :: string
  isNatural :: bool
  semitone :: int

record string_tuning =
  tuning_note :: string
  tuning_semitone :: int

record interval_def =
  semitones :: int
  iname :: string

definition chromaticScale :: "pitch list" where
  "chromaticScale =
    [\<lparr>name = ''C'', isNatural = True, semitone = 0\<rparr>,
     \<lparr>name = ''C#'', isNatural = False, semitone = 1\<rparr>,
     \<lparr>name = ''D'', isNatural = True, semitone = 2\<rparr>,
     \<lparr>name = ''D#'', isNatural = False, semitone = 3\<rparr>,
     \<lparr>name = ''E'', isNatural = True, semitone = 4\<rparr>,
     \<lparr>name = ''F'', isNatural = True, semitone = 5\<rparr>,
     \<lparr>name = ''F#'', isNatural = False, semitone = 6\<rparr>,
     \<lparr>name = ''G'', isNatural = True, semitone = 7\<rparr>,
     \<lparr>name = ''G#'', isNatural = False, semitone = 8\<rparr>,
     \<lparr>name = ''A'', isNatural = True, semitone = 9\<rparr>,
     \<lparr>name = ''A#'', isNatural = False, semitone = 10\<rparr>,
     \<lparr>name = ''B'', isNatural = True, semitone = 11\<rparr>]"

text \<open>The object literal \<^verbatim>\<open>this.intervals\<close>, in the order of its keys.\<close>

definition intervals :: "(string \<times> interval_def) list" where
  "intervals =
    [(''minor-3rd'', \<lparr>semitones = 3, iname = ''Minor 3rd''\<rparr>),
     (''major-3rd'', \<lparr>semitones = 4, iname = ''Major 3rd''\<rparr>),
     (''perfect-4th'', \<lparr>semitones = 5, iname = ''Perfect 4th''\<rparr>),
     (''perfect-5th'', \<lparr>semitones = 7, iname = ''Perfect 5th''\<rparr>),
     (''minor-7th'', \<lparr>semitones = 10, iname = ''Minor 7th''\<rparr>),
     (''major-7th'', \<lparr>semitones = 11, iname = ''Major 7th''\<rparr>),
     (''octave'', \<lparr>semitones = 12, iname = ''Octave''\<rparr>)]"

definition standardTuning :: "string_tuning list" where
  "standardTuning =
    [\<lparr>tuning_note = ''E'', tuning_semitone = 4\<rparr>,
     \<lparr>tuning_note = ''A'', tuning_semitone = 9\<rparr>,
     \<lparr>tuning_note = ''D'', tuning_semitone = 2\<rparr>,
     \<lparr>tuning_note = ''G'', tuning_semitone = 7\<rparr>,
     \<lparr>tuning_note = ''B'', tuning_semitone = 11\<rparr>,
     \<lparr>tuning_note = ''E'', tuning_semitone = 4\<rparr>]"

definition noteClassMap :: "(string \<times> string) list" where
  "noteClassMap =
    [(''C'', ''c''), (''C#'', ''c-sharp''), (''D'', ''d''), (''D#'', ''d-sharp''),
     (''E'', ''e''), (''F'', ''f''), (''F#'', ''f-sharp''), (''G'', ''g''),
     (''G#'', ''g-sharp''), (''A'', ''a''), (''A#'', ''a-sharp''), (''B'', ''b'')]"

text \<open>
  The object \<^verbatim>\<open>getNoteAt\<close> returns: the table entry spread into it, then \<^verbatim>\<open>cssClass\<close>
  (\<open>None\<close> is \<^verbatim>\<open>undefined\<close>), \<^verbatim>\<open>displayText\<close>, the fret number passed in and the tuning
  passed in.
\<close>

record note_info = pitch +
  cssClass :: "string option"
  displayText :: string
  fret :: int
  stringTuning :: string_tuning

text \<open>
  \<^verbatim>\<open>getNoteAt(stringTuning, fretNumber)\<close>, for a tuning object and an integer fret number.
  When \<^verbatim>\<open>find\<close> yields \<^verbatim>\<open>undefined\<close>, reading \<^verbatim>\<open>noteInfo.name\<close> throws a TypeError; so it
  does when the sum is infinite, since the remainder of \<^verbatim>\<open>Infinity\<close> is NaN and no entry
  equals NaN.
\<close>

definition getNoteAt :: "string_tuning \<Rightarrow> int \<Rightarrow> js_error + note_info" where
  "getNoteAt tuning fretNumber =
    (let baseSemitone = tuning_semitone tuning in
     case js_add baseSemitone fretNumber of
       None \<Rightarrow> Inl TypeError
     | Some semitoneSum \<Rightarrow>
         let totalSemitones = js_rem semitoneSum 12
         in case find (\<lambda>n. semitone n = totalSemitones) chromaticScale of
              None \<Rightarrow> Inl TypeError
            | Some noteInfo \<Rightarrow>
                Inr \<lparr>name = name noteInfo, isNatural = isNatural noteInfo,
                     semitone = semitone noteInfo,
                     cssClass = map_of noteClassMap (name noteInfo),
                     displayText = (if isNatural noteInfo then name noteInfo else []),
                     fret = fretNumber,
                     stringTuning = tuning\<rparr>)"

text \<open>
  The object \<^verbatim>\<open>calculateInterval\<close> returns: \<^verbatim>\<open>type\<close>, \<^verbatim>\<open>distance\<close> and the table entry
  spread into it.
\<close>

record interval_def_result = interval_def +
  itype :: string
  distance :: int

text \<open>
  \<^verbatim>\<open>calculateInterval(rootNote, targetNote)\<close>; \<open>None\<close> as an argument is a null or undefined
  note, \<open>None\<close> as a result is \<^verbatim>\<open>null\<close>. Only the \<^verbatim>\<open>semitone\<close> property of either note is
  read.
\<close>

definition calculateInterval ::
  "('a pitch_scheme) option \<Rightarrow> ('b pitch_scheme) option \<Rightarrow> interval_def_result option" where
  "calculateInterval rootNote targetNote =
    (case (rootNote, targetNote) of
       (Some r, Some t) \<Rightarrow>
         (let rootSemitone = semitone r;
              targetSemitone = semitone t;
              distance0 = targetSemitone - rootSemitone;
              dist = (if distance0 < 0 then distance0 + 12 else distance0)
          in case find (\<lambda>key. map_option semitones (map_of intervals key) = Some dist)
                    (map fst intervals) of
               None \<Rightarrow> None
             | Some intervalKey \<Rightarrow>
                 (case map_of intervals intervalKey of
                    None \<Rightarrow> None
                  | Some d \<Rightarrow>
                      Some \<lparr>semitones = semitones d, iname = iname d,
                            itype = intervalKey, distance = dist\<rparr>))
     | _ \<Rightarrow> None)"


section \<open>JavaScript values\<close>

text \<open>
  The values that snapshots, canvas states and parsed documents are made of. An object is
  the list of its own properties in insertion order; reading a property takes the first
  entry of that name. Functions, DOM nodes and cyclic structures are outside this type.
\<close>

datatype jsval =
    JUndefined
  | JNull
  | JBool bool
  | JNum int
  | JStr string
  | JArr "jsval list"
  | JObj "(string \<times> jsval) list"

text \<open>
  \<^verbatim>\<open>JSON.parse(JSON.stringify(v))\<close> for a value \<open>v\<close> that is neither null nor undefined:
  a property whose value is undefined is dropped from its object, an undefined array element
  becomes null, everything else is copied.
\<close>

fun json_roundtrip :: "jsval \<Rightarrow> jsval" where
  "json_roundtrip (JArr xs) =
     JArr (map (\<lambda>x. if x = JUndefined then JNull else json_roundtrip x) xs)"
| "json_roundtrip (JObj kvs) =
     JObj (map (\<lambda>kv. (fst kv, json_roundtrip (snd kv)))
            (filter (\<lambda>kv. snd kv \<noteq> JUndefined) kvs))"
| "json_roundtrip v = v"

text \<open>A value with no undefined inside: what a JSON document can hold.\<close>

fun is_json :: "jsval \<Rightarrow> bool" where
  "is_json JUndefined = False"
| "is_json (JArr xs) = list_all is_json xs"
| "is_json (JObj kvs) = list_all (\<lambda>kv. is_json (snd kv)) kvs"
| "is_json v = True"

section \<open>StateManager (src/unnamed/part_001, imported as utils/state-management.js)\<close>

record action =
  atype :: string
  description :: string
  adata :: jsval

record state_entry =
  entry_id :: string
  timestamp :: int
  entry_action :: action
  previousState :: jsval
  newState :: jsval

text \<open>
  The fields of a \<^verbatim>\<open>StateManager\<close> that its methods read and write. The cap is a count, so
  it is a natural number. The set of listeners is left out: \<^verbatim>\<open>notifyListeners\<close> calls each
  callback inside its own try/catch and touches no field of the manager.
\<close>

record state_manager =
  history :: "state_entry list"
  currentIndex :: int
  maxHistorySize :: nat
  hasUnsavedChangesFlag :: bool

definition StateManager_new :: state_manager where
  "StateManager_new =
    \<lparr>history = [], currentIndex = - 1, maxHistorySize = 100, hasUnsavedChangesFlag = False\<rparr>"

text \<open>
  \<^verbatim>\<open>cloneState\<close>: null and undefined are returned as they are, any other state goes through
  JSON. The catch branch (stringify throws on a cyclic structure) has no input in \<open>jsval\<close>.
\<close>

definition cloneState :: "jsval \<Rightarrow> jsval" where
  "cloneState state =
    (if state = JNull \<or> state = JUndefined then state else json_roundtrip state)"

text \<open>\<^verbatim>\<open>createAction(type, description, data = null)\<close>; \<^verbatim>\<open>data ? ... : null\<close> tests truthiness.\<close>

fun truthy :: "jsval \<Rightarrow> bool" where
  "truthy JUndefined = False"
| "truthy JNull = False"
| "truthy (JBool b) = b"
| "truthy (JNum n) = (n \<noteq> 0)"
| "truthy (JStr s) = (s \<noteq> [])"
| "truthy (JArr xs) = True"
| "truthy (JObj kvs) = True"

definition createAction :: "string \<Rightarrow> string \<Rightarrow> jsval \<Rightarrow> action" where
  "createAction ty descr d =
    \<lparr>atype = ty, description = descr, adata = (if truthy d then cloneState d else JNull)\<rparr>"

text \<open>\<^verbatim>\<open>xs.slice(0, e)\<close>: a negative end counts from the end of the array.\<close>

definition js_slice0 :: "'a list \<Rightarrow> int \<Rightarrow> 'a list" where
  "js_slice0 xs e =
    (let n = int (length xs);
         k = (if e < 0 then max (n + e) 0 else min e n)
     in take (nat k) xs)"

text \<open>\<^verbatim>\<open>xs[i]\<close>: undefined (\<open>None\<close>) out of range.\<close>

definition js_index :: "'a list \<Rightarrow> int \<Rightarrow> 'a option" where
  "js_index xs i = (if 0 \<le> i \<and> i < int (length xs) then Some (xs ! nat i) else None)"

text \<open>
  \<^verbatim>\<open>saveState(action, previousState, newState)\<close>. The entry's id and timestamp come from the
  clock and the random generator; they are arguments here. The action is an object: every
  caller builds it with \<^verbatim>\<open>createAction\<close> or as an object literal.
\<close>

definition saveState ::
  "string \<Rightarrow> int \<Rightarrow> action \<Rightarrow> jsval \<Rightarrow> jsval \<Rightarrow> state_manager \<Rightarrow> state_manager" where
  "saveState eid now act prev new sm =
    (let h1 = (if currentIndex sm < int (length (history sm)) - 1
               then js_slice0 (history sm) (currentIndex sm + 1)
               else history sm);
         stateEntry = \<lparr>entry_id = eid, timestamp = now,
                       entry_action = \<lparr>atype = atype act, description = description act,
                                        adata = adata act\<rparr>,
                       previousState = cloneState prev,
                       newState = cloneState new\<rparr>;
         h2 = h1 @ [stateEntry];
         i2 = int (length h2) - 1
     in if length h2 > maxHistorySize sm
        then sm\<lparr>history := tl h2, currentIndex := i2 - 1, hasUnsavedChangesFlag := True\<rparr>
        else sm\<lparr>history := h2, currentIndex := i2, hasUnsavedChangesFlag := True\<rparr>)"

definition canUndo :: "state_manager \<Rightarrow> bool" where
  "canUndo sm = (currentIndex sm \<ge> 0)"

definition canRedo :: "state_manager \<Rightarrow> bool" where
  "canRedo sm = (currentIndex sm < int (length (history sm)) - 1)"

record restore_result =
  result_action :: action
  stateToRestore :: jsval
  direction :: string

text \<open>
  \<^verbatim>\<open>undo()\<close> and \<^verbatim>\<open>redo()\<close> return null (\<open>Inr None\<close>) when there is nothing to undo or redo.
  Reading a property of \<^verbatim>\<open>history[currentIndex]\<close> throws when the index is outside the
  array; by then the index has been moved.
\<close>

definition undo :: "state_manager \<Rightarrow> (js_error + restore_result option) \<times> state_manager" where
  "undo sm =
    (if \<not> canUndo sm then (Inr None, sm)
     else
       let stateEntry = js_index (history sm) (currentIndex sm);
           sm' = sm\<lparr>currentIndex := currentIndex sm - 1\<rparr>
       in case stateEntry of
            None \<Rightarrow> (Inl TypeError, sm')
          | Some e \<Rightarrow>
              (Inr (Some \<lparr>result_action = entry_action e,
                          stateToRestore = previousState e,
                          direction = ''undo''\<rparr>), sm'))"

definition redo :: "state_manager \<Rightarrow> (js_error + restore_result option) \<times> state_manager" where
  "redo sm =
    (if \<not> canRedo sm then (Inr None, sm)
     else
       let sm' = sm\<lparr>currentIndex := currentIndex sm + 1\<rparr>;
           stateEntry = js_index (history sm') (currentIndex sm')
       in case stateEntry of
            None \<Rightarrow> (Inl TypeError, sm')
          | Some e \<Rightarrow>
              (Inr (Some \<lparr>result_action = entry_action e,
                          stateToRestore = newState e,
                          direction = ''redo''\<rparr>), sm'))"

definition clearHistory :: "state_manager \<Rightarrow> state_manager" where
  "clearHistory sm = sm\<lparr>history := [], currentIndex := - 1, hasUnsavedChangesFlag := False\<rparr>"

definition markAsSaved :: "state_manager \<Rightarrow> state_manager" where
  "markAsSaved sm = sm\<lparr>hasUnsavedChangesFlag := False\<rparr>"

text \<open>One call of \<^verbatim>\<open>saveState\<close>: its arguments, with the id and timestamp of the entry.\<close>

record save_call =
  call_id :: string
  call_now :: int
  call_action :: action
  call_prev :: jsval
  call_new :: jsval

definition entry_of :: "save_call \<Rightarrow> state_entry" where
  "entry_of c =
    \<lparr>entry_id = call_id c, timestamp = call_now c,
     entry_action = \<lparr>atype = atype (call_action c), description = description (call_action c),
                      adata = adata (call_action c)\<rparr>,
     previousState = cloneState (call_prev c),
     newState = cloneState (call_new c)\<rparr>"

definition record_call :: "state_manager \<Rightarrow> save_call \<Rightarrow> state_manager" where
  "record_call sm c = saveState (call_id c) (call_now c) (call_action c) (call_prev c) (call_new c) sm"

text \<open>A sequence of \<^verbatim>\<open>saveState\<close> calls, first call first.\<close>

definition record_calls :: "state_manager \<Rightarrow> save_call list \<Rightarrow> state_manager" where
  "record_calls sm cs = foldl record_call sm cs"

text \<open>\<open>k\<close> calls of \<^verbatim>\<open>undo()\<close> in a row.\<close>

fun undo_times :: "nat \<Rightarrow> state_manager \<Rightarrow> state_manager" where
  "undo_times 0 sm = sm"
| "undo_times (Suc k) sm = undo_times k (snd (undo sm))"

text \<open>
  The managers that calls of \<^verbatim>\<open>saveState\<close>, \<^verbatim>\<open>undo\<close> and \<^verbatim>\<open>redo\<close> reach from a new manager
  whose cap has been set to \<open>m\<close>.
\<close>

inductive reachable :: "nat \<Rightarrow> state_manager \<Rightarrow> bool" where
  reach_new: "reachable m (StateManager_new\<lparr>maxHistorySize := m\<rparr>)"
| reach_save: "reachable m sm \<Longrightarrow> reachable m (saveState eid now act prev new sm)"
| reach_undo: "reachable m sm \<Longrightarrow> reachable m (snd (undo sm))"
| reach_redo: "reachable m sm \<Longrightarrow> reachable m (snd (redo sm))"

section \<open>JavaScript operators on values\<close>

text \<open>Decimal rendering of an integer, as a template literal does it.\<close>

definition digit_char :: "nat \<Rightarrow> char" where
  "digit_char d = char_of (d + 48)"

fun string_of_nat :: "nat \<Rightarrow> string" where
  "string_of_nat n =
    (if 10 \<le> n then string_of_nat (n div 10) @ [digit_char (n mod 10)]
     else [digit_char n])"

definition string_of_int :: "int \<Rightarrow> string" where
  "string_of_int i = (if i < 0 then CHR ''-'' # string_of_nat (nat (- i)) else string_of_nat (nat i))"

text \<open>
  The own properties of a value: those of an object, and the indexes and \<^verbatim>\<open>length\<close> of an
  array or a string. Inherited properties (the methods of the prototypes) are left out:
  none of the names the code tests or reads is one of them.
\<close>

fun own_props :: "jsval \<Rightarrow> (string \<times> jsval) list" where
  "own_props (JObj kvs) = kvs"
| "own_props (JArr xs) =
     zip (map string_of_nat [0..<length xs]) xs @ [(''length'', JNum (int (length xs)))]"
| "own_props (JStr s) =
     zip (map string_of_nat [0..<length s]) (map (\<lambda>c. JStr [c]) s)
       @ [(''length'', JNum (int (length s)))]"
| "own_props v = []"

text \<open>The value of an own property, undefined when it is not there.\<close>

definition own_prop :: "jsval \<Rightarrow> string \<Rightarrow> jsval" where
  "own_prop v p = (case map_of (own_props v) p of None \<Rightarrow> JUndefined | Some x \<Rightarrow> x)"

text \<open>\<^verbatim>\<open>v.p\<close>: a TypeError on null and undefined.\<close>

definition get_prop :: "jsval \<Rightarrow> string \<Rightarrow> js_error + jsval" where
  "get_prop v p = (if v = JUndefined \<or> v = JNull then Inl TypeError else Inr (own_prop v p))"

text \<open>\<^verbatim>\<open>p in v\<close>: a TypeError unless \<open>v\<close> is an object or an array.\<close>

fun js_in :: "string \<Rightarrow> jsval \<Rightarrow> js_error + bool" where
  "js_in p (JObj kvs) = Inr (p \<in> fst ` set (own_props (JObj kvs)))"
| "js_in p (JArr xs) = Inr (p \<in> fst ` set (own_props (JArr xs)))"
| "js_in p v = Inl TypeError"

fun js_typeof :: "jsval \<Rightarrow> string" where
  "js_typeof JUndefined = ''undefined''"
| "js_typeof JNull = ''object''"
| "js_typeof (JBool b) = ''boolean''"
| "js_typeof (JNum n) = ''number''"
| "js_typeof (JStr s) = ''string''"
| "js_typeof (JArr xs) = ''object''"
| "js_typeof (JObj kvs) = ''object''"

fun isArray :: "jsval \<Rightarrow> bool" where
  "isArray (JArr xs) = True"
| "isArray v = False"

text \<open>\<^verbatim>\<open>a || b\<close>.\<close>

definition js_or :: "jsval \<Rightarrow> jsval \<Rightarrow> jsval" where
  "js_or a b = (if truthy a then a else b)"

text \<open>Sequencing of steps that may throw: the first exception ends the block.\<close>

definition bindE :: "js_error + 'a \<Rightarrow> ('a \<Rightarrow> js_error + 'b) \<Rightarrow> js_error + 'b" where
  "bindE m f = (case m of Inl e \<Rightarrow> Inl e | Inr x \<Rightarrow> f x)"

text \<open>\<^verbatim>\<open>s.toLowerCase()\<close> on ASCII letters, and \<^verbatim>\<open>s.endsWith(suffix)\<close>.\<close>

definition toLowerCase :: "string \<Rightarrow> string" where
  "toLowerCase s =
    map (\<lambda>c. if 65 \<le> (of_char c :: nat) \<and> (of_char c :: nat) \<le> 90
              then char_of ((of_char c :: nat) + 32) else c) s"

definition endsWith :: "string \<Rightarrow> string \<Rightarrow> bool" where
  "endsWith s suffix =
    (length suffix \<le> length s \<and> drop (length s - length suffix) s = suffix)"

text \<open>
  \<^verbatim>\<open>error.message\<close>. The message of an \<^verbatim>\<open>Error\<close> the code constructs is its argument. The
  text an engine gives a TypeError is engine-specific and stands here as \<open>''TypeError''\<close>.
\<close>

fun message :: "js_error \<Rightarrow> string" where
  "message (Error m) = m"
| "message TypeError = ''TypeError''"

section \<open>FileOperations (src/utils/file-operations.js)\<close>

text \<open>
  The loop \<^verbatim>\<open>for (const p of props) if (!(p in v)) return false\<close>: whether a property
  is missing, unless \<^verbatim>\<open>in\<close> throws.
\<close>

fun missing_prop :: "string list \<Rightarrow> jsval \<Rightarrow> js_error + bool" where
  "missing_prop [] v = Inr False"
| "missing_prop (p # ps) v =
     bindE (js_in p v) (\<lambda>present. if \<not> present then Inr True else missing_prop ps v)"

text \<open>The try block of \<^verbatim>\<open>validateGridStructure(grid)\<close>.\<close>

definition validateGridStructure_try :: "jsval \<Rightarrow> js_error + bool" where
  "validateGridStructure_try grid =
    bindE (missing_prop [''id'', ''position'', ''config''] grid) (\<lambda>missing.
    if missing then Inr False else
    bindE (get_prop grid ''position'') (\<lambda>position.
    if \<not> truthy position \<or> js_typeof position \<noteq> ''object'' then Inr False else
    bindE (get_prop position ''x'') (\<lambda>x.
    bindE (get_prop position ''y'') (\<lambda>y.
    if js_typeof x \<noteq> ''number'' \<or> js_typeof y \<noteq> ''number'' then Inr False else
    bindE (get_prop grid ''config'') (\<lambda>config.
    if \<not> truthy config \<or> js_typeof config \<noteq> ''object'' then Inr False else
    bindE (missing_prop [''startFret'', ''endFret'', ''stringCount'', ''tuning'', ''orientation'']
             config) (\<lambda>missing.
    if missing then Inr False else
    bindE (get_prop config ''startFret'') (\<lambda>startFret.
    bindE (get_prop config ''endFret'') (\<lambda>endFret.
    bindE (get_prop config ''stringCount'') (\<lambda>stringCount.
    if js_typeof startFret \<noteq> ''number'' \<or> js_typeof endFret \<noteq> ''number''
       \<or> js_typeof stringCount \<noteq> ''number'' then Inr False else
    bindE (get_prop config ''tuning'') (\<lambda>tuning.
    if \<not> isArray tuning then Inr False else Inr True))))))))))"

text \<open>\<^verbatim>\<open>validateGridStructure(grid)\<close>: the catch block returns false.\<close>

definition validateGridStructure :: "jsval \<Rightarrow> bool" where
  "validateGridStructure grid =
    (case validateGridStructure_try grid of Inl e \<Rightarrow> False | Inr b \<Rightarrow> b)"

definition validateSaveData_try :: "jsval \<Rightarrow> js_error + bool" where
  "validateSaveData_try data =
    bindE (missing_prop [''version'', ''canvas'', ''grids''] data) (\<lambda>missing.
    if missing then Inr False else
    bindE (get_prop data ''canvas'') (\<lambda>canvas.
    if js_typeof canvas \<noteq> ''object'' then Inr False else
    bindE (get_prop data ''grids'') (\<lambda>grids.
    case grids of
      JArr gs \<Rightarrow>
        if \<not> list_all validateGridStructure gs then Inr False else
        bindE (get_prop data ''notes'') (\<lambda>notes.
        if truthy notes \<and> js_typeof notes \<noteq> ''object'' then Inr False else Inr True)
    | _ \<Rightarrow> Inr False)))"

definition validateSaveData :: "jsval \<Rightarrow> bool" where
  "validateSaveData data =
    (case validateSaveData_try data of Inl e \<Rightarrow> False | Inr b \<Rightarrow> b)"

text \<open>
  The loop over \<^verbatim>\<open>data.grids\<close> in \<^verbatim>\<open>validateLoadData\<close>: the index of the first grid that
  \<^verbatim>\<open>validateGridStructure\<close> rejects, counting from \<open>i\<close>.
\<close>

fun first_invalid_grid :: "nat \<Rightarrow> jsval list \<Rightarrow> nat option" where
  "first_invalid_grid i [] = None"
| "first_invalid_grid i (g # gs) =
     (if \<not> validateGridStructure g then Some i else first_invalid_grid (Suc i) gs)"

text \<open>
  \<^verbatim>\<open>validateLoadData(data)\<close>: \<open>Inl error\<close> is \<^verbatim>\<open>{isValid: false, error}\<close>, \<open>Inr ()\<close> is
  \<^verbatim>\<open>{isValid: true}\<close>.
\<close>

definition validateLoadData_try :: "jsval \<Rightarrow> js_error + (string + unit)" where
  "validateLoadData_try data =
    (if \<not> truthy data \<or> js_typeof data \<noteq> ''object''
     then Inr (Inl ''File must contain a JSON object'') else
     bindE (get_prop data ''version'') (\<lambda>version.
     if \<not> truthy version then Inr (Inl ''Missing version information'') else
     bindE (get_prop data ''canvas'') (\<lambda>canvas.
     if \<not> truthy canvas \<or> js_typeof canvas \<noteq> ''object''
     then Inr (Inl ''Missing or invalid canvas configuration'') else
     bindE (get_prop data ''grids'') (\<lambda>grids.
     case grids of
       JArr gs \<Rightarrow>
         (case first_invalid_grid 0 gs of
            Some i \<Rightarrow> Inr (Inl (''Invalid grid structure at index '' @ string_of_nat i))
          | None \<Rightarrow> Inr (Inr ()))
     | _ \<Rightarrow> Inr (Inl ''Missing or invalid grids array'')))))"

definition validateLoadData :: "jsval \<Rightarrow> string + unit" where
  "validateLoadData data =
    (case validateLoadData_try data of
       Inl e \<Rightarrow> Inl (''Error parsing file: '' @ message e)
     | Inr r \<Rightarrow> r)"

text \<open>
  A \<^verbatim>\<open>FileOperations\<close> object with the state manager it was given. \<open>None\<close> is the null file
  name.
\<close>

record file_operations =
  stateManager :: state_manager
  currentFileName :: "string option"
  fileVersion :: string

definition FileOperations_new :: "state_manager \<Rightarrow> file_operations" where
  "FileOperations_new sm = \<lparr>stateManager = sm, currentFileName = None, fileVersion = ''1.0''\<rparr>"

text \<open>The object \<^verbatim>\<open>saveData\<close> that \<^verbatim>\<open>saveCanvas\<close> builds; \<open>now\<close> is \<^verbatim>\<open>Date.now()\<close>.\<close>

definition saveData_of :: "file_operations \<Rightarrow> int \<Rightarrow> jsval \<Rightarrow> js_error + jsval" where
  "saveData_of fo now canvasState =
    bindE (get_prop canvasState ''orientation'') (\<lambda>orientation.
    bindE (get_prop canvasState ''locked'') (\<lambda>locked.
    bindE (get_prop canvasState ''dimensions'') (\<lambda>dimensions.
    bindE (get_prop canvasState ''grids'') (\<lambda>grids.
    bindE (get_prop canvasState ''notes'') (\<lambda>notes.
    bindE (get_prop canvasState ''rootNote'') (\<lambda>rootNote.
    bindE (get_prop canvasState ''intervals'') (\<lambda>intervals.
    bindE (get_prop canvasState ''settings'') (\<lambda>settings.
    Inr (JObj
      [(''version'', JStr (fileVersion fo)),
       (''timestamp'', JNum now),
       (''metadata'', JObj
          [(''application'', JStr ''Gitaroo Guitar Fretboard Learning Tool''),
           (''createdBy'', JStr ''user''),
           (''description'', JStr ''Guitar fretboard diagram with notes and configurations'')]),
       (''canvas'', JObj
          [(''orientation'', js_or orientation (JStr ''portrait'')),
           (''locked'', js_or locked (JBool False)),
           (''dimensions'', js_or dimensions
              (JObj [(''width'', JNum 816), (''height'', JNum 1056)]))]),
       (''grids'', js_or grids (JArr [])),
       (''notes'', js_or notes (JObj [])),
       (''rootNote'', js_or rootNote JNull),
       (''intervals'', js_or intervals (JObj [])),
       (''settings'', js_or settings (JObj []))])))))))))"

text \<open>
  What \<^verbatim>\<open>saveCanvas\<close> returns, \<^verbatim>\<open>{success: true, filename}\<close> or \<^verbatim>\<open>{success: false, error}\<close>,
  together with the document it hands to the browser as a download: the value it passes to
  \<^verbatim>\<open>JSON.stringify\<close>, \<open>None\<close> when nothing is written.
\<close>

record save_result =
  save_success :: bool
  save_filename :: "string option"
  save_error :: "string option"
  save_document :: "jsval option"

text \<open>
  \<^verbatim>\<open>saveCanvas(canvasState, filename = null)\<close>. \<open>generated\<close> is the file name made from the
  clock when none is given.
\<close>

definition saveCanvas ::
  "int \<Rightarrow> string \<Rightarrow> file_operations \<Rightarrow> jsval \<Rightarrow> string option
     \<Rightarrow> save_result \<times> file_operations" where
  "saveCanvas now generated fo canvasState filename =
    (let fname = (case filename of None \<Rightarrow> generated
                  | Some n \<Rightarrow> if n = [] then generated else n);
         outcome =
           bindE (saveData_of fo now canvasState) (\<lambda>saveData.
           if \<not> validateSaveData saveData
           then Inl (Error ''Invalid data structure for saving'')
           else Inr saveData)
     in case outcome of
          Inl e \<Rightarrow>
            (\<lparr>save_success = False, save_filename = None, save_error = Some (message e),
              save_document = None\<rparr>, fo)
        | Inr saveData \<Rightarrow>
            (\<lparr>save_success = True, save_filename = Some fname, save_error = None,
              save_document = Some saveData\<rparr>,
             fo\<lparr>stateManager := markAsSaved (stateManager fo), currentFileName := Some fname\<rparr>))"

text \<open>
  The file given to \<^verbatim>\<open>loadCanvas\<close>: its name, and what reading it as text and parsing the
  text as JSON come to.
\<close>

datatype file_content = ReadFailed | ParseFailed string | Parsed jsval

record js_file =
  file_name :: string
  content :: file_content

text \<open>
  \<^verbatim>\<open>loadCanvas(file)\<close>: \<open>Inl error\<close> is \<^verbatim>\<open>{success: false, error}\<close>, \<open>Inr (data, filename)\<close>
  is \<^verbatim>\<open>{success: true, data, filename}\<close>. \<open>None\<close> is no file. A version other than the
  current one only logs a warning.
\<close>

definition loadCanvas_try :: "js_file option \<Rightarrow> js_error + (jsval \<times> string)" where
  "loadCanvas_try file =
    (case file of
       None \<Rightarrow> Inl (Error ''No file provided'')
     | Some f \<Rightarrow>
         if \<not> endsWith (toLowerCase (file_name f)) ''.json''
         then Inl (Error ''File must be a JSON file (.json extension)'')
         else
           (case content f of
              ReadFailed \<Rightarrow> Inl (Error ''Failed to read file'')
            | ParseFailed m \<Rightarrow> Inl (Error (''Invalid JSON format: '' @ m))
            | Parsed loadedData \<Rightarrow>
                (case validateLoadData loadedData of
                   Inl err \<Rightarrow> Inl (Error (''Invalid file structure: '' @ err))
                 | Inr u \<Rightarrow>
                     bindE (get_prop loadedData ''canvas'') (\<lambda>canvas.
                     bindE (get_prop loadedData ''grids'') (\<lambda>grids.
                     bindE (get_prop loadedData ''notes'') (\<lambda>notes.
                     bindE (get_prop loadedData ''rootNote'') (\<lambda>rootNote.
                     bindE (get_prop loadedData ''intervals'') (\<lambda>intervals.
                     bindE (get_prop loadedData ''settings'') (\<lambda>settings.
                     Inr (JObj
                       [(''canvas'', js_or canvas (JObj [])),
                        (''grids'', js_or grids (JArr [])),
                        (''notes'', js_or notes (JObj [])),
                        (''rootNote'', js_or rootNote JNull),
                        (''intervals'', js_or intervals (JObj [])),
                        (''settings'', js_or settings (JObj []))],
                       file_name f))))))))))"

definition loadCanvas ::
  "file_operations \<Rightarrow> js_file option \<Rightarrow> (string + jsval \<times> string) \<times> file_operations" where
  "loadCanvas fo file =
    (case loadCanvas_try file of
       Inl e \<Rightarrow> (Inl (message e), fo)
     | Inr (canvasState, fname) \<Rightarrow>
         (Inr (canvasState, fname),
          fo\<lparr>stateManager := clearHistory (stateManager fo), currentFileName := Some fname\<rparr>))"

text \<open>
  \<^verbatim>\<open>Canvas.handleLoad\<close> (src/components/canvas.js), for the file the input element holds:
  the workspace is replaced by \<^verbatim>\<open>restoreCanvasState(result.data)\<close> only when \<^verbatim>\<open>loadCanvas\<close>
  succeeds. \<open>restoreCanvasState\<close> rebuilds the grids in the DOM; it is an argument here, a
  function on the workspace \<open>'w\<close> (a failure inside it is not modelled). The first
  component is the toast shown.
\<close>

definition handleLoad ::
  "(jsval \<Rightarrow> 'w \<Rightarrow> 'w) \<Rightarrow> 'w \<Rightarrow> file_operations \<Rightarrow> js_file
     \<Rightarrow> string \<times> 'w \<times> file_operations" where
  "handleLoad restoreCanvasState workspace fo file =
    (case loadCanvas fo (Some file) of
       (Inr (data, fname), fo') \<Rightarrow>
         (''Canvas loaded from '' @ fname, restoreCanvasState data workspace, fo')
     | (Inl err, fo') \<Rightarrow> (''Load failed: '' @ err, workspace, fo'))"

section \<open>Grid (src/components/grid.js)\<close>

text \<open>
  A note stored on a grid: the object \<^verbatim>\<open>getNoteAt\<close> returned, spread, with the string index,
  the fret and the group state. The note's DOM element is presentation and is left out.
\<close>

record grid_note = note_info +
  stringIndex :: int
  groupState :: string

text \<open>The root note the canvas holds: a note with the ids of its grid and of itself.\<close>

record root_note = grid_note +
  root_gridId :: string
  root_noteId :: string

text \<open>
  A grid together with what it reaches through its canvas and its state manager:
  \<^verbatim>\<open>this.element.id\<close>, \<^verbatim>\<open>this.config.tuning\<close>, the map \<^verbatim>\<open>this.notes\<close> in insertion order,
  \<^verbatim>\<open>this.isLocked\<close>, \<^verbatim>\<open>this.canvas.rootNote\<close> (\<open>None\<close> is null), \<^verbatim>\<open>this.canvas.intervals\<close> and
  \<^verbatim>\<open>this.stateManager\<close>.
\<close>

record grid =
  element_id :: string
  config_tuning :: "string_tuning list"
  grid_notes :: "(string \<times> grid_note) list"
  isLocked :: bool
  canvas_rootNote :: "root_note option"
  canvas_intervals :: "(string \<times> interval_def_result) list"
  grid_stateManager :: state_manager

text \<open>
  What a method takes from outside the grid: \<^verbatim>\<open>this.canvas.getCanvasState()\<close>, which reads
  every grid of the canvas, the size of the canvas element and the clock, and the id and
  timestamp \<^verbatim>\<open>saveState\<close> gives its entry.

  The object \<^verbatim>\<open>getCanvasState()\<close> returns holds copies of the grids' data
  (\<^verbatim>\<open>grid.serialize()\<close>) and, under \<^verbatim>\<open>notes\<close>, the note objects themselves. \<^verbatim>\<open>saveState\<close>
  clones it later, after the method has changed the grid, and an assignment to a note made
  in between shows in the clone. So \<open>getCanvasState env g g'\<close> is the value the object
  returned at grid \<open>g\<close> has when the grid has become \<open>g'\<close>.
\<close>

record grid_env =
  getCanvasState :: "grid \<Rightarrow> grid \<Rightarrow> jsval"
  next_entry_id :: string
  next_timestamp :: int

text \<open>
  The element a click lands on. A position element carries in its dataset the string index
  and the fret it was created for (\<^verbatim>\<open>createNotePosition\<close>), and \<^verbatim>\<open>parseInt\<close> reads them back.
  The element of a placed note is a child of its position element, so a click on it
  reaches the same handler with the note element as \<^verbatim>\<open>event.target\<close>; its dataset has a
  \<^verbatim>\<open>noteId\<close> but neither \<^verbatim>\<open>string\<close> nor \<^verbatim>\<open>fret\<close>, and \<^verbatim>\<open>parseInt(undefined)\<close> is NaN
  (\<open>None\<close>).
\<close>

datatype click_target = PositionElement int int | NoteElement

fun parsed_string :: "click_target \<Rightarrow> int option" where
  "parsed_string (PositionElement si fr) = Some si"
| "parsed_string NoteElement = None"

fun parsed_fret :: "click_target \<Rightarrow> int option" where
  "parsed_fret (PositionElement si fr) = Some fr"
| "parsed_fret NoteElement = None"

text \<open>
  A number in a template literal: NaN, or the decimal digits of an integer (below
  \<open>10 ^ 21\<close> in magnitude).
\<close>

fun number_text :: "int option \<Rightarrow> string" where
  "number_text None = ''NaN''"
| "number_text (Some i) = string_of_int i"

text \<open>The template literal \<^verbatim>\<open>`${this.element.id}_${stringIndex}_${fret}`\<close>.\<close>

definition note_id :: "string \<Rightarrow> int option \<Rightarrow> int option \<Rightarrow> string" where
  "note_id gid si fr = gid @ ''_'' @ number_text si @ ''_'' @ number_text fr"

definition groupStates :: "string list" where
  "groupStates = [''chromatic'', ''group-1'', ''group-2'', ''group-3'', ''group-4'']"

text \<open>\<^verbatim>\<open>xs.indexOf(x)\<close>: the first index of \<open>x\<close>, or -1.\<close>

fun indexOf :: "'a list \<Rightarrow> 'a \<Rightarrow> int" where
  "indexOf [] x = - 1"
| "indexOf (y # ys) x =
     (if y = x then 0 else (let i = indexOf ys x in if i < 0 then - 1 else i + 1))"

text \<open>
  \<^verbatim>\<open>const newState = this.canvas.getCanvasState();
  this.stateManager.saveState(this.stateManager.createAction(type, description),
  previousState, newState)\<close>, at the end of a method that has changed the grid to \<open>g\<close>:
  \<open>previous\<close> is the object taken before the change, read now.
\<close>

definition save_change ::
  "grid_env \<Rightarrow> string \<Rightarrow> string \<Rightarrow> (grid \<Rightarrow> jsval) \<Rightarrow> grid \<Rightarrow> grid" where
  "save_change env ty descr previous g =
    g\<lparr>grid_stateManager :=
        saveState (next_entry_id env) (next_timestamp env) (createAction ty descr JNull)
          (previous g) (getCanvasState env g g) (grid_stateManager g)\<rparr>"

text \<open>
  \<^verbatim>\<open>placeNote(stringIndex, fret)\<close>, for two numbers that are integers or NaN (\<open>None\<close>).
  \<^verbatim>\<open>this.config.tuning[stringIndex]\<close> is undefined for NaN and outside the array, and
  \<^verbatim>\<open>getNoteAt\<close> then throws reading its \<^verbatim>\<open>semitone\<close>. With the fret NaN the sum in
  \<^verbatim>\<open>getNoteAt\<close> is NaN, \<^verbatim>\<open>find\<close> yields undefined and \<^verbatim>\<open>getNoteAt\<close> throws as well. The
  string index found in the array is small, so \<^verbatim>\<open>stringIndex + 1\<close> is exact.
  \<^verbatim>\<open>this.notes.set\<close> replaces the value of a key that is there and appends a new key.
\<close>

definition placeNote ::
  "grid_env \<Rightarrow> grid \<Rightarrow> int option \<Rightarrow> int option \<Rightarrow> js_error + grid" where
  "placeNote env g stringIdx fretNo =
    (let previous = getCanvasState env g in
     case stringIdx of
       None \<Rightarrow> Inl TypeError
     | Some si \<Rightarrow>
         (case js_index (config_tuning g) si of
            None \<Rightarrow> Inl TypeError
          | Some tuning \<Rightarrow>
              (case fretNo of
                 None \<Rightarrow> Inl TypeError
               | Some fr \<Rightarrow>
                   bindE (getNoteAt tuning fr) (\<lambda>noteInfo.
                   let noteId = note_id (element_id g) stringIdx fretNo;
                       new_note = \<lparr>name = name noteInfo, isNatural = isNatural noteInfo,
                                   semitone = semitone noteInfo, cssClass = cssClass noteInfo,
                                   displayText = displayText noteInfo, fret = fr,
                                   stringTuning = stringTuning noteInfo,
                                   stringIndex = si, groupState = ''chromatic''\<rparr>;
                       g1 = g\<lparr>grid_notes := AList.update noteId new_note (grid_notes g)\<rparr>
                   in Inr (save_change env ''note_place''
                            (''Place '' @ name noteInfo @ '' note at fret '' @ string_of_int fr
                               @ '', string '' @ string_of_int (si + 1))
                            previous g1)))))"

text \<open>
  \<^verbatim>\<open>this.canvas.setRootNote(null)\<close>: the root note is cleared and
  \<^verbatim>\<open>updateIntervalHighlighting\<close> empties the intervals.
\<close>

definition setRootNote_null :: "grid \<Rightarrow> grid" where
  "setRootNote_null g = g\<lparr>canvas_rootNote := None, canvas_intervals := []\<rparr>"

text \<open>\<^verbatim>\<open>removeNote(noteId)\<close>.\<close>

definition removeNote :: "grid_env \<Rightarrow> grid \<Rightarrow> string \<Rightarrow> grid" where
  "removeNote env g noteId =
    (case map_of (grid_notes g) noteId of
       None \<Rightarrow> g
     | Some n \<Rightarrow>
         let previous = getCanvasState env g;
             g1 = g\<lparr>grid_notes := AList.delete noteId (grid_notes g)\<rparr>;
             g2 = (case canvas_rootNote g1 of
                     Some r \<Rightarrow> if root_noteId r = noteId then setRootNote_null g1 else g1
                   | None \<Rightarrow> g1)
         in save_change env ''note_remove'' (''Remove '' @ name n @ '' note'') previous g2)"

text \<open>
  \<^verbatim>\<open>cycleNoteGroup(noteId, note)\<close>, where \<^verbatim>\<open>note\<close> is the object stored under \<^verbatim>\<open>noteId\<close>: the
  assignment to \<^verbatim>\<open>note.groupState\<close> changes the stored note, also as the object taken
  for \<^verbatim>\<open>previousState\<close> shows it when \<^verbatim>\<open>saveState\<close> clones that object. \<^verbatim>\<open>nextIndex\<close> lies in
  0..4, so \<^verbatim>\<open>groupStates[nextIndex]\<close> is an element of the array.
\<close>

definition cycleNoteGroup :: "grid_env \<Rightarrow> grid \<Rightarrow> string \<Rightarrow> grid_note \<Rightarrow> grid" where
  "cycleNoteGroup env g noteId n =
    (let previous = getCanvasState env g;
         currentIndex = indexOf groupStates (groupState n);
         nextIndex = js_rem (currentIndex + 1) (int (length groupStates))
     in if nextIndex = 0 \<and> currentIndex = 0 then removeNote env g noteId
        else
          let newGroupState = groupStates ! nat nextIndex;
              g1 = g\<lparr>grid_notes :=
                      AList.map_entry noteId (\<lambda>stored. n\<lparr>groupState := newGroupState\<rparr>)
                        (grid_notes g)\<rparr>
          in save_change env ''note_group_change''
               (''Change note '' @ name n @ '' group to '' @ newGroupState) previous g1)"

text \<open>\<^verbatim>\<open>handleNoteClick(event)\<close>, for the element \<^verbatim>\<open>event.target\<close>.\<close>

definition handleNoteClick :: "grid_env \<Rightarrow> grid \<Rightarrow> click_target \<Rightarrow> js_error + grid" where
  "handleNoteClick env g target =
    (if isLocked g then Inr g
     else
       let stringIdx = parsed_string target;
           fretNo = parsed_fret target;
           noteId = note_id (element_id g) stringIdx fretNo
       in case map_of (grid_notes g) noteId of
            Some existingNote \<Rightarrow> Inr (cycleNoteGroup env g noteId existingNote)
          | None \<Rightarrow> placeNote env g stringIdx fretNo)"

text \<open>
  A grid as the constructor makes it (standard tuning, unlocked) on a canvas with no root
  note, with the notes given; the note G at fret 3 of its first string, in a given group
  state; and an environment whose snapshot holds the group state of every note as
  \<^verbatim>\<open>serialize()\<close> copies it.
\<close>

definition new_grid :: "(string \<times> grid_note) list \<Rightarrow> grid" where
  "new_grid ns =
    \<lparr>element_id = ''grid_1'', config_tuning = standardTuning, grid_notes = ns,
     isLocked = False, canvas_rootNote = None, canvas_intervals = [],
     grid_stateManager = StateManager_new\<rparr>"

definition g_note :: "string \<Rightarrow> grid_note" where
  "g_note gs =
    \<lparr>name = ''G'', isNatural = True, semitone = 7, cssClass = Some ''g'', displayText = ''G'',
     fret = 3, stringTuning = \<lparr>tuning_note = ''E'', tuning_semitone = 4\<rparr>,
     stringIndex = 0, groupState = gs\<rparr>"

definition test_env :: grid_env where
  "test_env =
    \<lparr>getCanvasState =
       (\<lambda>g g'. JObj (map (\<lambda>kn. (fst kn, JStr (groupState (snd kn)))) (grid_notes g))),
     next_entry_id = ''state'', next_timestamp = 0\<rparr>"

section \<open>The shape of a valid grid, and sample data\<close>

text \<open>
  The shape of a grid that \<^verbatim>\<open>validateGridStructure\<close> accepts, written out: an object with an
  \<^verbatim>\<open>id\<close>, a \<^verbatim>\<open>position\<close> object with numbers \<^verbatim>\<open>x\<close> and \<^verbatim>\<open>y\<close>, and a \<^verbatim>\<open>config\<close> object with
  numbers \<^verbatim>\<open>startFret\<close>, \<^verbatim>\<open>endFret\<close>, \<^verbatim>\<open>stringCount\<close>, an array \<^verbatim>\<open>tuning\<close> and an
  \<^verbatim>\<open>orientation\<close>.
\<close>

definition num_at :: "(string \<times> jsval) list \<Rightarrow> string \<Rightarrow> bool" where
  "num_at kvs k = (case map_of kvs k of Some (JNum n) \<Rightarrow> True | _ \<Rightarrow> False)"

definition grid_shape :: "jsval \<Rightarrow> bool" where
  "grid_shape g =
    (case g of
       JObj kvs \<Rightarrow>
         ''id'' \<in> fst ` set kvs
         \<and> (case map_of kvs ''position'' of
              Some (JObj pos) \<Rightarrow> num_at pos ''x'' \<and> num_at pos ''y''
            | _ \<Rightarrow> False)
         \<and> (case map_of kvs ''config'' of
              Some (JObj cfg) \<Rightarrow>
                num_at cfg ''startFret'' \<and> num_at cfg ''endFret'' \<and> num_at cfg ''stringCount''
                \<and> (case map_of cfg ''tuning'' of Some (JArr t) \<Rightarrow> True | _ \<Rightarrow> False)
                \<and> ''orientation'' \<in> fst ` set cfg
            | _ \<Rightarrow> False)
     | _ \<Rightarrow> False)"

text \<open>
  The canvas state of the integration tests (tests/integration/file-operations.test.js),
  with the grid's frets, string count and tuning, and the list of grids, as arguments.
\<close>

definition tuning_json :: "string_tuning list \<Rightarrow> jsval" where
  "tuning_json ts =
    JArr (map (\<lambda>t. JObj [(''note'', JStr (tuning_note t)), (''semitone'', JNum (tuning_semitone t))]) ts)"

definition mock_grid :: "jsval \<Rightarrow> jsval \<Rightarrow> jsval \<Rightarrow> jsval \<Rightarrow> jsval" where
  "mock_grid startFret endFret stringCount tuning =
    JObj [(''id'', JStr ''test-grid-1''),
          (''position'', JObj [(''x'', JNum 50), (''y'', JNum 50)]),
          (''config'', JObj [(''startFret'', startFret), (''endFret'', endFret),
                             (''stringCount'', stringCount), (''tuning'', tuning),
                             (''orientation'', JStr ''vertical'')]),
          (''notes'', JObj [])]"

definition mockCanvasState :: "jsval list \<Rightarrow> jsval" where
  "mockCanvasState grids =
    JObj [(''canvas'', JObj [(''orientation'', JStr ''portrait''), (''locked'', JBool False),
                             (''dimensions'', JObj [(''width'', JNum 816), (''height'', JNum 1056)])]),
          (''grids'', JArr grids),
          (''notes'', JObj []),
          (''rootNote'', JNull),
          (''intervals'', JObj []),
          (''settings'', JObj [(''version'', JStr ''1.0''), (''timestamp'', JNum 0)])]"

text \<open>
  The calls of the unit test of the history cap (tests/unit/state-management.test.js):
  action \<^verbatim>\<open>{type: 'test', description: ...}\<close>, snapshots \<^verbatim>\<open>{count: i}\<close> and \<^verbatim>\<open>{count: i + 1}\<close>.
\<close>

definition test_call :: "int \<Rightarrow> save_call" where
  "test_call i =
    \<lparr>call_id = ''state'', call_now = i,
     call_action = \<lparr>atype = ''test'', description = ''Action'', adata = JUndefined\<rparr>,
     call_prev = JObj [(''count'', JNum i)],
     call_new = JObj [(''count'', JNum (i + 1))]\<rparr>"

section \<open>Properties of MusicTheory\<close>

lemma js_rem_nonneg: "0 \<le> a \<Longrightarrow> js_rem a 12 = a mod 12"
  by (simp add: js_rem_def sgn_if)

lemma js_rem_neg: "a < 0 \<Longrightarrow> js_rem a 12 = - ((- a) mod 12)"
  by (simp add: js_rem_def sgn_if)

lemma find_chromatic:
  assumes "0 \<le> k" "k \<le> 11"
  shows "\<exists>p. find (\<lambda>n. semitone n = k) chromaticScale = Some p \<and> semitone p = k"
proof -
  from assms have "k = 0 \<or> k = 1 \<or> k = 2 \<or> k = 3 \<or> k = 4 \<or> k = 5 \<or> k = 6 \<or> k = 7 \<or> k = 8
    \<or> k = 9 \<or> k = 10 \<or> k = 11" by arith
  then show ?thesis by (auto simp: chromaticScale_def)
qed

lemma find_chromatic_none:
  "k < 0 \<or> 11 < k \<Longrightarrow> find (\<lambda>n. semitone n = k) chromaticScale = None"
  by (auto simp: chromaticScale_def)

lemma find_chromatic_zero:
  "find (\<lambda>n. semitone n = 0) chromaticScale =
     Some \<lparr>name = ''C'', isNatural = True, semitone = 0\<rparr>"
  by (simp add: chromaticScale_def)

lemma bit_length_le: "n < 2 ^ k \<Longrightarrow> bit_length n \<le> k"
proof (induction k arbitrary: n)
  case 0
  then have "n = 0" by simp
  then show ?case by (simp add: bit_length.simps)
next
  case (Suc k)
  show ?case
  proof (cases "n = 0")
    case True
    then show ?thesis by (simp add: bit_length.simps)
  next
    case False
    from Suc.prems have "n div 2 < 2 ^ k" by simp
    from Suc.IH [OF this] False show ?thesis by (simp add: bit_length.simps [of n])
  qed
qed

lemma bit_length_eq: "2 ^ k \<le> n \<Longrightarrow> n < 2 ^ Suc k \<Longrightarrow> bit_length n = Suc k"
proof (induction k arbitrary: n)
  case 0
  then have "n = 1" by simp
  then show ?case by (simp add: bit_length.simps [of "Suc 0"] bit_length.simps [of 0])
next
  case (Suc k)
  from Suc.prems have "2 ^ k \<le> n div 2" "n div 2 < 2 ^ Suc k" by simp_all
  then have "bit_length (n div 2) = Suc k" by (rule Suc.IH)
  moreover from Suc.prems have "n \<noteq> 0" by auto
  ultimately show ?case by (simp add: bit_length.simps [of n])
qed

lemma round_double_safe:
  assumes "safe_integer x"
  shows "round_double x = Some x"
proof -
  from assms have "nat \<bar>x\<bar> < 2 ^ 53" by (simp add: safe_integer_def MAX_SAFE_INTEGER_def)
  then have "bit_length (nat \<bar>x\<bar>) \<le> 53" by (rule bit_length_le)
  then show ?thesis by (simp add: round_double_def Let_def)
qed

lemma round_double_tie: "round_double (2 ^ 53 + 9) = Some (2 ^ 53 + 8)"
proof -
  have "bit_length (nat \<bar>2 ^ 53 + 9\<bar>) = Suc 53"
    by (rule bit_length_eq) simp_all
  then show ?thesis by (simp add: round_double_def Let_def)
qed

lemma js_add_safe: "safe_integer (a + b) \<Longrightarrow> js_add a b = Some (a + b)"
  by (simp add: js_add_def round_double_safe)

lemma safe_integer_small: "\<bar>n\<bar> \<le> 1000 \<Longrightarrow> safe_integer n"
  by (simp add: safe_integer_def MAX_SAFE_INTEGER_def)

lemma getNoteAt_nonneg:
  assumes "0 \<le> tuning_semitone t + f" "safe_integer (tuning_semitone t + f)"
  shows "\<exists>n. getNoteAt t f = Inr n \<and> fret n = f
    \<and> semitone n = (tuning_semitone t + f) mod 12"
proof -
  let ?k = "(tuning_semitone t + f) mod 12"
  have k: "0 \<le> ?k" "?k \<le> 11" by simp_all
  from find_chromatic [OF k] obtain p where
    p: "find (\<lambda>n. semitone n = ?k) chromaticScale = Some p" "semitone p = ?k" by blast
  from assms p show ?thesis by (simp add: getNoteAt_def js_add_safe js_rem_nonneg)
qed

lemma getNoteAt_neg_throws:
  assumes "tuning_semitone t + f < 0" "\<not> 12 dvd (tuning_semitone t + f)"
    and "safe_integer (tuning_semitone t + f)"
  shows "getNoteAt t f = Inl TypeError"
proof -
  let ?a = "tuning_semitone t + f"
  have "(- ?a) mod 12 \<noteq> 0" using assms(2) by presburger
  moreover have "0 \<le> (- ?a) mod 12" by simp
  ultimately have "js_rem ?a 12 < 0" using assms(1) by (simp add: js_rem_neg)
  then show ?thesis using assms(3) by (simp add: getNoteAt_def js_add_safe find_chromatic_none)
qed

lemma getNoteAt_neg_multiple:
  assumes "tuning_semitone t + f < 0" "12 dvd (tuning_semitone t + f)"
    and "safe_integer (tuning_semitone t + f)"
  shows "\<exists>n. getNoteAt t f = Inr n \<and> name n = ''C'' \<and> semitone n = 0"
proof -
  let ?a = "tuning_semitone t + f"
  have "(- ?a) mod 12 = 0" using assms(2) by presburger
  then have "js_rem ?a 12 = 0" using assms(1) by (simp add: js_rem_neg)
  then show ?thesis using assms(3) by (simp add: getNoteAt_def js_add_safe find_chromatic_zero)
qed

lemma getNoteAt_shift:
  assumes "0 \<le> tuning_semitone t + f" "tuning_semitone t + (f + 12) \<le> MAX_SAFE_INTEGER"
  shows "\<exists>n. getNoteAt t f = Inr n \<and> fret n = f
    \<and> semitone n = (tuning_semitone t + f) mod 12
    \<and> getNoteAt t (f + 12) = Inr (n\<lparr>fret := f + 12\<rparr>)"
proof -
  let ?k = "(tuning_semitone t + f) mod 12"
  have k: "0 \<le> ?k" "?k \<le> 11" by simp_all
  from find_chromatic [OF k] obtain p where
    p: "find (\<lambda>n. semitone n = ?k) chromaticScale = Some p" "semitone p = ?k" by blast
  from assms have s1: "safe_integer (tuning_semitone t + f)"
    and s2: "safe_integer (tuning_semitone t + (f + 12))"
    by (simp_all add: safe_integer_def)
  have r1: "js_rem (tuning_semitone t + f) 12 = ?k" using assms by (simp add: js_rem_nonneg)
  have "js_rem (tuning_semitone t + (f + 12)) 12 = (tuning_semitone t + (f + 12)) mod 12"
    using assms by (intro js_rem_nonneg) simp
  also have "\<dots> = ?k" by (simp add: add.assoc [symmetric])
  finally have r2: "js_rem (tuning_semitone t + (f + 12)) 12 = ?k" .
  show ?thesis
    unfolding getNoteAt_def Let_def js_add_safe [OF s1] js_add_safe [OF s2] by (simp add: r1 r2 p)
qed

lemma find_interval:
  assumes "0 \<le> d" "d \<le> 11"
  shows "find (\<lambda>key. map_option semitones (map_of intervals key) = Some d) (map fst intervals) =
    (if d = 3 then Some ''minor-3rd'' else if d = 4 then Some ''major-3rd''
     else if d = 5 then Some ''perfect-4th'' else if d = 7 then Some ''perfect-5th''
     else if d = 10 then Some ''minor-7th'' else if d = 11 then Some ''major-7th'' else None)"
  using assms by (simp add: intervals_def)

text \<open>
  Claim C8. For two pitch classes with semitones in 0..11, \<open>calculateInterval\<close> computes the
  distance \<open>(target - root) mod 12\<close> and returns the interval of the fixed table
  3: minor-3rd, 4: major-3rd, 5: perfect-4th, 7: perfect-5th, 10: minor-7th, 11: major-7th;
  for a distance among 0, 1, 2, 6, 8, 9 it returns null; the octave entry is never returned.
\<close>

theorem calculateInterval_fixed_table:
  assumes "0 \<le> semitone r" "semitone r \<le> 11" "0 \<le> semitone t" "semitone t \<le> 11"
  shows "calculateInterval (Some r) (Some t) =
      (let d = (semitone t - semitone r) mod 12 in
       if d = 3 then Some \<lparr>semitones = 3, iname = ''Minor 3rd'', itype = ''minor-3rd'', distance = d\<rparr>
       else if d = 4 then Some \<lparr>semitones = 4, iname = ''Major 3rd'', itype = ''major-3rd'', distance = d\<rparr>
       else if d = 5 then Some \<lparr>semitones = 5, iname = ''Perfect 4th'', itype = ''perfect-4th'', distance = d\<rparr>
       else if d = 7 then Some \<lparr>semitones = 7, iname = ''Perfect 5th'', itype = ''perfect-5th'', distance = d\<rparr>
       else if d = 10 then Some \<lparr>semitones = 10, iname = ''Minor 7th'', itype = ''minor-7th'', distance = d\<rparr>
       else if d = 11 then Some \<lparr>semitones = 11, iname = ''Major 7th'', itype = ''major-7th'', distance = d\<rparr>
       else None)
    \<and> ((semitone t - semitone r) mod 12 \<in> {0, 1, 2, 6, 8, 9}
          \<longrightarrow> calculateInterval (Some r) (Some t) = None)
    \<and> (\<forall>iv. calculateInterval (Some r) (Some t) = Some iv \<longrightarrow> itype iv \<noteq> ''octave'')"
proof -
  define d where "d = (semitone t - semitone r) mod 12"
  have d: "0 \<le> d" "d \<le> 11" by (simp_all add: d_def)
  have dist: "(if semitone t - semitone r < 0 then semitone t - semitone r + 12
               else semitone t - semitone r) = d"
  proof (cases "semitone t - semitone r < 0")
    case True
    with assms have "0 \<le> semitone t - semitone r + 12" "semitone t - semitone r + 12 < 12"
      by simp_all
    then have "(semitone t - semitone r + 12) mod 12 = semitone t - semitone r + 12"
      by (rule mod_pos_pos_trivial)
    moreover have "(semitone t - semitone r + 12) mod 12 = (semitone t - semitone r) mod 12"
      by (rule mod_add_self2)
    ultimately show ?thesis using True by (simp add: d_def)
  next
    case False
    with assms have "0 \<le> semitone t - semitone r" "semitone t - semitone r < 12" by simp_all
    then have "(semitone t - semitone r) mod 12 = semitone t - semitone r"
      by (rule mod_pos_pos_trivial)
    then show ?thesis using False by (simp add: d_def)
  qed
  have calc: "calculateInterval (Some r) (Some t) =
      (case find (\<lambda>key. map_option semitones (map_of intervals key) = Some d) (map fst intervals) of
         None \<Rightarrow> None
       | Some k \<Rightarrow> (case map_of intervals k of None \<Rightarrow> None
           | Some e \<Rightarrow> Some \<lparr>semitones = semitones e, iname = iname e, itype = k, distance = d\<rparr>))"
  proof (cases "semitone t - semitone r < 0")
    case True
    with dist have e: "d = semitone t - semitone r + 12" by simp
    show ?thesis unfolding e using True by (simp add: calculateInterval_def Let_def)
  next
    case False
    with dist have e: "d = semitone t - semitone r" by simp
    show ?thesis unfolding e using False by (simp add: calculateInterval_def Let_def)
  qed
  have tab: "calculateInterval (Some r) (Some t) =
       (if d = 3 then Some \<lparr>semitones = 3, iname = ''Minor 3rd'', itype = ''minor-3rd'', distance = d\<rparr>
       else if d = 4 then Some \<lparr>semitones = 4, iname = ''Major 3rd'', itype = ''major-3rd'', distance = d\<rparr>
       else if d = 5 then Some \<lparr>semitones = 5, iname = ''Perfect 4th'', itype = ''perfect-4th'', distance = d\<rparr>
       else if d = 7 then Some \<lparr>semitones = 7, iname = ''Perfect 5th'', itype = ''perfect-5th'', distance = d\<rparr>
       else if d = 10 then Some \<lparr>semitones = 10, iname = ''Minor 7th'', itype = ''minor-7th'', distance = d\<rparr>
       else if d = 11 then Some \<lparr>semitones = 11, iname = ''Major 7th'', itype = ''major-7th'', distance = d\<rparr>
       else None)"
    unfolding calc find_interval [OF d] by (simp add: intervals_def)
  have none: "d \<in> {0, 1, 2, 6, 8, 9} \<longrightarrow> calculateInterval (Some r) (Some t) = None"
    unfolding tab by auto
  have oct: "\<forall>iv. calculateInterval (Some r) (Some t) = Some iv \<longrightarrow> itype iv \<noteq> ''octave''"
    unfolding tab by (auto split: if_splits)
  from tab none oct show ?thesis unfolding d_def Let_def by blast
qed

theorem calculateInterval_fixed_table_witness:
  "(0::int) \<le> 0 \<and> (0::int) \<le> 11 \<and> (0::int) \<le> 7 \<and> (7::int) \<le> 11
   \<and> calculateInterval (Some \<lparr>name = ''C'', isNatural = True, semitone = 0\<rparr>)
        (Some \<lparr>name = ''G'', isNatural = True, semitone = 7\<rparr>)
      = Some \<lparr>semitones = 7, iname = ''Perfect 5th'', itype = ''perfect-5th'', distance = 7\<rparr>
   \<and> calculateInterval (Some \<lparr>name = ''G'', isNatural = True, semitone = 7\<rparr>)
        (Some \<lparr>name = ''D#'', isNatural = False, semitone = 3\<rparr>) = None"
  using calculateInterval_fixed_table
      [of "\<lparr>name = ''C'', isNatural = True, semitone = 0\<rparr>"
          "\<lparr>name = ''G'', isNatural = True, semitone = 7\<rparr>"]
    calculateInterval_fixed_table
      [of "\<lparr>name = ''G'', isNatural = True, semitone = 7\<rparr>"
          "\<lparr>name = ''D#'', isNatural = False, semitone = 3\<rparr>"]
  by simp

text \<open>
  Claim C9, as stated: for every string tuning and every fret \<open>f \<ge> 0\<close> the result of
  \<open>getNoteAt\<close> at \<open>(t, f)\<close> equals the result at \<open>(t, f + 12)\<close>. The sum of the semitone and
  the fret is a sum of doubles. On a C# string (semitone 1) at fret \<open>2 ^ 53 - 4\<close> the sum is
  exact and the pitch is F; twelve frets up the sum \<open>2 ^ 53 + 9\<close> is rounded to \<open>2 ^ 53 + 8\<close>
  and the pitch is E.
\<close>

theorem getNoteAt_period_counterexample:
  "map_sum id name (getNoteAt \<lparr>tuning_note = ''C#'', tuning_semitone = 1\<rparr> (2 ^ 53 - 4))
     = Inr ''F''
   \<and> map_sum id name (getNoteAt \<lparr>tuning_note = ''C#'', tuning_semitone = 1\<rparr> (2 ^ 53 - 4 + 12))
     = Inr ''E''"
proof -
  have a: "js_add 1 (2 ^ 53 - 4) = Some (2 ^ 53 - 3)"
    using js_add_safe [of 1 "2 ^ 53 - 4"] by (simp add: safe_integer_def MAX_SAFE_INTEGER_def)
  have b: "js_add 1 (2 ^ 53 - 4 + 12) = Some (2 ^ 53 + 8)"
    using round_double_tie by (simp add: js_add_def)
  have ra: "js_rem (2 ^ 53 - 3) 12 = 5" by (simp add: js_rem_def)
  have rb: "js_rem (2 ^ 53 + 8) 12 = 4" by (simp add: js_rem_def)
  from a ra have a': "js_add 1 9007199254740988 = Some 9007199254740989"
    and ra': "js_rem 9007199254740989 12 = 5" by simp_all
  from b rb have b': "js_add 1 9007199254741000 = Some 9007199254741000"
    and rb': "js_rem 9007199254741000 12 = 4" by simp_all
  show ?thesis
    unfolding getNoteAt_def Let_def by (simp add: a' b' ra' rb' chromaticScale_def)
qed

text \<open>
  Claim C9, amended. For every string tuning with semitone in 0..11 and every fret
  \<open>f \<ge> 0\<close> with \<open>tuning.semitone + f + 12\<close> at most \<^verbatim>\<open>Number.MAX_SAFE_INTEGER\<close>, \<open>getNoteAt\<close>
  returns at \<open>(t, f)\<close> and at \<open>(t, f + 12)\<close>, the pitch class has semitone
  \<open>(tuning.semitone + f) mod 12\<close>, and the two results agree in every field (name,
  isNatural, semitone, cssClass, displayText, stringTuning) except \<open>fret\<close>, which is the
  fret number passed in: \<open>f\<close> in the one, \<open>f + 12\<close> in the other.
\<close>

theorem getNoteAt_period:
  assumes "0 \<le> tuning_semitone t" "tuning_semitone t \<le> 11" "0 \<le> f"
    and "tuning_semitone t + (f + 12) \<le> MAX_SAFE_INTEGER"
  shows "\<exists>n. getNoteAt t f = Inr n \<and> fret n = f
    \<and> semitone n = (tuning_semitone t + f) mod 12
    \<and> getNoteAt t (f + 12) = Inr (n\<lparr>fret := f + 12\<rparr>)"
  using assms by (intro getNoteAt_shift) simp_all

theorem getNoteAt_period_witness:
  "(0::int) \<le> 4 \<and> (4::int) \<le> 11 \<and> (0::int) \<le> 3 \<and> 4 + (3 + 12) \<le> MAX_SAFE_INTEGER
   \<and> (\<exists>n. getNoteAt \<lparr>tuning_note = ''E'', tuning_semitone = 4\<rparr> 3 = Inr n \<and> fret n = 3
        \<and> semitone n = 7
        \<and> getNoteAt \<lparr>tuning_note = ''E'', tuning_semitone = 4\<rparr> (3 + 12) = Inr (n\<lparr>fret := 3 + 12\<rparr>))"
  using getNoteAt_period [of "\<lparr>tuning_note = ''E'', tuning_semitone = 4\<rparr>" 3]
  by (simp add: MAX_SAFE_INTEGER_def)

text \<open>
  Claim C10, as stated: whenever \<open>tuning.semitone + f < 0\<close> the table lookup finds no entry.
  At a negative multiple of 12 the remainder is zero, and the lookup finds C: the C string
  at fret -12.
\<close>

theorem getNoteAt_negative_counterexample:
  "tuning_semitone \<lparr>tuning_note = ''C'', tuning_semitone = 0\<rparr> + (- 12) < 0
   \<and> getNoteAt \<lparr>tuning_note = ''C'', tuning_semitone = 0\<rparr> (- 12) =
       Inr \<lparr>name = ''C'', isNatural = True, semitone = 0, cssClass = Some ''c'',
            displayText = ''C'', fret = - 12,
            stringTuning = \<lparr>tuning_note = ''C'', tuning_semitone = 0\<rparr>\<rparr>"
  by (simp add: getNoteAt_def js_add_safe safe_integer_small js_rem_def chromaticScale_def
      noteClassMap_def)

text \<open>
  Claim C10, amended. For every string tuning with semitone in 0..11 and every fret \<open>f\<close>
  that is a safe integer, with \<open>tuning.semitone + f\<close> a safe integer as well (at most
  \<^verbatim>\<open>Number.MAX_SAFE_INTEGER\<close> in magnitude), the sum the code computes is exact, and: at a
  fret \<open>f \<ge> 0\<close> the lookup in the chromatic table succeeds and the returned pitch class has
  semitone \<open>(tuning.semitone + f) mod 12\<close>; at a fret with \<open>tuning.semitone + f < 0\<close> that is
  not a multiple of 12 the lookup finds no entry and \<open>getNoteAt\<close> throws; at a fret with
  \<open>tuning.semitone + f\<close> a negative multiple of 12 the lookup finds C.
\<close>

theorem getNoteAt_total:
  assumes "0 \<le> tuning_semitone t" "tuning_semitone t \<le> 11"
    and "safe_integer f" "safe_integer (tuning_semitone t + f)"
  shows "js_add (tuning_semitone t) f = Some (tuning_semitone t + f)
       \<and> (0 \<le> f \<longrightarrow>
            (\<exists>p. find (\<lambda>n. semitone n = js_rem (tuning_semitone t + f) 12) chromaticScale = Some p)
          \<and> (\<exists>n. getNoteAt t f = Inr n \<and> semitone n = (tuning_semitone t + f) mod 12))
       \<and> (tuning_semitone t + f < 0 \<and> \<not> 12 dvd (tuning_semitone t + f) \<longrightarrow>
            find (\<lambda>n. semitone n = js_rem (tuning_semitone t + f) 12) chromaticScale = None
          \<and> getNoteAt t f = Inl TypeError)
       \<and> (tuning_semitone t + f < 0 \<and> 12 dvd (tuning_semitone t + f) \<longrightarrow>
            (\<exists>n. getNoteAt t f = Inr n \<and> name n = ''C'' \<and> semitone n = 0))"
proof (intro conjI impI)
  from assms(4) show "js_add (tuning_semitone t) f = Some (tuning_semitone t + f)"
    by (rule js_add_safe)
next
  assume f: "0 \<le> f"
  with assms have s: "0 \<le> tuning_semitone t + f" by simp
  from getNoteAt_nonneg [OF s assms(4)]
  show "\<exists>n. getNoteAt t f = Inr n \<and> semitone n = (tuning_semitone t + f) mod 12" by blast
  have "0 \<le> (tuning_semitone t + f) mod 12" "(tuning_semitone t + f) mod 12 \<le> 11" by simp_all
  from find_chromatic [OF this] s
  show "\<exists>p. find (\<lambda>n. semitone n = js_rem (tuning_semitone t + f) 12) chromaticScale = Some p"
    by (auto simp: js_rem_nonneg)
next
  assume a: "tuning_semitone t + f < 0 \<and> \<not> 12 dvd (tuning_semitone t + f)"
  with assms(4) show "getNoteAt t f = Inl TypeError" by (simp add: getNoteAt_neg_throws)
  from a have "(- (tuning_semitone t + f)) mod 12 \<noteq> 0" by presburger
  moreover have "0 \<le> (- (tuning_semitone t + f)) mod 12" by simp
  ultimately have "js_rem (tuning_semitone t + f) 12 < 0" using a by (simp add: js_rem_neg)
  then show "find (\<lambda>n. semitone n = js_rem (tuning_semitone t + f) 12) chromaticScale = None"
    by (simp add: find_chromatic_none)
next
  assume "tuning_semitone t + f < 0 \<and> 12 dvd (tuning_semitone t + f)"
  with assms(4) show "\<exists>n. getNoteAt t f = Inr n \<and> name n = ''C'' \<and> semitone n = 0"
    by (simp add: getNoteAt_neg_multiple)
qed

theorem getNoteAt_total_witness:
  "(0::int) \<le> 4 \<and> (4::int) \<le> 11 \<and> (0::int) \<le> 3 \<and> (4::int) + (- 5) < 0 \<and> \<not> 12 dvd ((4::int) + (- 5))
   \<and> (4::int) + (- 16) < 0 \<and> 12 dvd ((4::int) + (- 16))
   \<and> safe_integer 3 \<and> safe_integer (4 + 3) \<and> safe_integer (- 5) \<and> safe_integer (4 + (- 5))
   \<and> safe_integer (- 16) \<and> safe_integer (4 + (- 16))
   \<and> (\<exists>n. getNoteAt \<lparr>tuning_note = ''E'', tuning_semitone = 4\<rparr> 3 = Inr n \<and> semitone n = 7)
   \<and> getNoteAt \<lparr>tuning_note = ''E'', tuning_semitone = 4\<rparr> (- 5) = Inl TypeError
   \<and> (\<exists>n. getNoteAt \<lparr>tuning_note = ''E'', tuning_semitone = 4\<rparr> (- 16) = Inr n \<and> name n = ''C'')"
  using getNoteAt_total [of "\<lparr>tuning_note = ''E'', tuning_semitone = 4\<rparr>" 3]
    getNoteAt_total [of "\<lparr>tuning_note = ''E'', tuning_semitone = 4\<rparr>" "- 5"]
    getNoteAt_total [of "\<lparr>tuning_note = ''E'', tuning_semitone = 4\<rparr>" "- 16"]
  by (auto simp: safe_integer_small)

section \<open>Properties of StateManager\<close>

lemma is_json_defined: "is_json v \<Longrightarrow> v \<noteq> JUndefined"
  by auto

lemma json_roundtrip_id: "is_json v \<Longrightarrow> json_roundtrip v = v"
proof (induction v)
  case (JArr xs)
  then have "\<And>x. x \<in> set xs \<Longrightarrow> (if x = JUndefined then JNull else json_roundtrip x) = x"
    by (auto simp: list_all_iff)
  then show ?case by (simp add: map_idI)
next
  case (JObj kvs)
  then have all: "\<And>kv. kv \<in> set kvs \<Longrightarrow> is_json (snd kv)" by (simp add: list_all_iff)
  then have f: "filter (\<lambda>kv. snd kv \<noteq> JUndefined) kvs = kvs"
    by (intro filter_True) (auto dest: is_json_defined)
  have "\<And>kv. kv \<in> set kvs \<Longrightarrow> (fst kv, json_roundtrip (snd kv)) = kv"
  proof -
    fix kv assume kv: "kv \<in> set kvs"
    obtain k v where e: "kv = (k, v)" by (cases kv)
    with kv JObj.IH [of kv v] all [OF kv] show "(fst kv, json_roundtrip (snd kv)) = kv"
      by simp
  qed
  then show ?case by (simp add: f map_idI)
qed simp_all

lemma saveState_tail:
  "currentIndex (saveState eid now act prev new sm) =
     int (length (history (saveState eid now act prev new sm))) - 1"
  by (simp add: saveState_def Let_def)

lemma saveState_no_redo: "\<not> canRedo (saveState eid now act prev new sm)"
  by (simp add: canRedo_def saveState_tail)

lemma js_slice0_take: "0 \<le> e \<Longrightarrow> e \<le> int (length xs) \<Longrightarrow> js_slice0 xs e = take (nat e) xs"
  by (simp add: js_slice0_def Let_def min_def)

lemma saveState_history:
  assumes "- 1 \<le> currentIndex sm" "currentIndex sm < int (length (history sm))"
  shows "history (saveState eid now act prev new sm) =
    (let kept = take (nat (currentIndex sm + 1)) (history sm);
         e = \<lparr>entry_id = eid, timestamp = now,
               entry_action = \<lparr>atype = atype act, description = description act, adata = adata act\<rparr>,
               previousState = cloneState prev, newState = cloneState new\<rparr>
     in if length kept + 1 > maxHistorySize sm then tl (kept @ [e]) else kept @ [e])"
proof (cases "currentIndex sm < int (length (history sm)) - 1")
  case True
  with assms have "js_slice0 (history sm) (currentIndex sm + 1) = take (nat (currentIndex sm + 1)) (history sm)"
    by (intro js_slice0_take) simp_all
  with True show ?thesis by (simp add: saveState_def Let_def)
next
  case False
  with assms have "currentIndex sm + 1 = int (length (history sm))" by simp
  then have "take (nat (currentIndex sm + 1)) (history sm) = history sm" by simp
  with False show ?thesis by (simp add: saveState_def Let_def)
qed

lemma reachable_inv:
  "reachable m sm \<Longrightarrow>
     maxHistorySize sm = m \<and> - 1 \<le> currentIndex sm \<and> currentIndex sm < int (length (history sm))
     \<and> length (history sm) \<le> m"
proof (induction rule: reachable.induct)
  case (reach_new m)
  then show ?case by (simp add: StateManager_new_def)
next
  case (reach_save m sm eid now act prev new)
  then have h: "history (saveState eid now act prev new sm) =
    (let kept = take (nat (currentIndex sm + 1)) (history sm);
         e = \<lparr>entry_id = eid, timestamp = now,
               entry_action = \<lparr>atype = atype act, description = description act, adata = adata act\<rparr>,
               previousState = cloneState prev, newState = cloneState new\<rparr>
     in if length kept + 1 > maxHistorySize sm then tl (kept @ [e]) else kept @ [e])"
    by (intro saveState_history) simp_all
  have m: "maxHistorySize (saveState eid now act prev new sm) = m"
    using reach_save.IH by (simp add: saveState_def Let_def)
  have len: "length (history (saveState eid now act prev new sm)) \<le> m"
    unfolding h using reach_save.IH by (auto simp: Let_def)
  show ?case using m len by (simp add: saveState_tail)
next
  case (reach_undo m sm)
  then show ?case by (auto simp: undo_def canUndo_def Let_def split: option.splits)
next
  case (reach_redo m sm)
  then show ?case by (auto simp: redo_def canRedo_def Let_def split: option.splits)
qed

lemma entry_of_literal:
  "\<lparr>entry_id = call_id c, timestamp = call_now c,
     entry_action = \<lparr>atype = atype (call_action c), description = description (call_action c),
                      adata = adata (call_action c)\<rparr>,
     previousState = cloneState (call_prev c),
     newState = cloneState (call_new c)\<rparr> = entry_of c"
  by (simp add: entry_of_def)

lemma record_call_history:
  assumes "- 1 \<le> currentIndex sm" "currentIndex sm < int (length (history sm))"
  shows "history (record_call sm c) =
    (if length (take (nat (currentIndex sm + 1)) (history sm)) + 1 > maxHistorySize sm
     then tl (take (nat (currentIndex sm + 1)) (history sm) @ [entry_of c])
     else take (nat (currentIndex sm + 1)) (history sm) @ [entry_of c])"
  unfolding record_call_def saveState_history [OF assms] Let_def entry_of_literal ..

lemma record_call_tail:
  "currentIndex (record_call sm c) = int (length (history (record_call sm c))) - 1"
  unfolding record_call_def by (rule saveState_tail)

lemma record_call_cap: "maxHistorySize (record_call sm c) = maxHistorySize sm"
  by (simp add: record_call_def saveState_def Let_def)

lemma push_evict:
  assumes "n = length es"
  shows "(if length (drop (n - m) es) + 1 > m then tl (drop (n - m) es @ [e])
          else drop (n - m) es @ [e]) = drop (Suc n - m) (es @ [e])"
proof (cases "n < m")
  case True
  with assms show ?thesis by simp
next
  case False
  show ?thesis
  proof (cases "m = 0")
    case True
    with assms show ?thesis by simp
  next
    case m: False
    with False assms have ne: "drop (n - m) es \<noteq> []" by simp
    from False have s: "Suc n - m = Suc (n - m)" by simp
    from False assms have "length (drop (n - m) es) + 1 > m" by simp
    moreover have "tl (drop (n - m) es @ [e]) = drop (Suc n - m) (es @ [e])"
      using ne False assms unfolding s by (simp add: drop_Suc tl_drop)
    ultimately show ?thesis by simp
  qed
qed

lemma record_calls_snoc: "record_calls sm (cs @ [c]) = record_call (record_calls sm cs) c"
  by (simp add: record_calls_def)

lemma record_calls_state:
  "history (record_calls (StateManager_new\<lparr>maxHistorySize := m\<rparr>) cs)
      = drop (length cs - m) (map entry_of cs)
   \<and> currentIndex (record_calls (StateManager_new\<lparr>maxHistorySize := m\<rparr>) cs)
      = int (length (history (record_calls (StateManager_new\<lparr>maxHistorySize := m\<rparr>) cs))) - 1
   \<and> maxHistorySize (record_calls (StateManager_new\<lparr>maxHistorySize := m\<rparr>) cs) = m"
proof (induction cs rule: rev_induct)
  case Nil
  show ?case by (simp add: record_calls_def StateManager_new_def)
next
  case (snoc c cs)
  let ?s = "record_calls (StateManager_new\<lparr>maxHistorySize := m\<rparr>) cs"
  from snoc have h: "history ?s = drop (length cs - m) (map entry_of cs)"
    and i: "currentIndex ?s = int (length (history ?s)) - 1"
    and c: "maxHistorySize ?s = m" by simp_all
  from i have kept: "take (nat (currentIndex ?s + 1)) (history ?s) = history ?s" by simp
  from i have inv: "- 1 \<le> currentIndex ?s" "currentIndex ?s < int (length (history ?s))" by simp_all
  have "history (record_call ?s c) =
     (if length (history ?s) + 1 > m then tl (history ?s @ [entry_of c])
      else history ?s @ [entry_of c])"
    using record_call_history [OF inv, of c] unfolding kept c .
  then have "history (record_call ?s c) =
     (if length (drop (length cs - m) (map entry_of cs)) + 1 > m
      then tl (drop (length cs - m) (map entry_of cs) @ [entry_of c])
      else drop (length cs - m) (map entry_of cs) @ [entry_of c])"
    unfolding h .
  also have "\<dots> = drop (Suc (length cs) - m) (map entry_of cs @ [entry_of c])"
    by (rule push_evict) simp
  finally have "history (record_call ?s c) = drop (length (cs @ [c]) - m) (map entry_of (cs @ [c]))"
    by simp
  then show ?case unfolding record_calls_snoc
    by (simp add: record_call_tail record_call_cap c)
qed

lemma undo_step:
  assumes "0 \<le> currentIndex sm" "currentIndex sm < int (length (history sm))"
  shows "undo sm =
    (Inr (Some \<lparr>result_action = entry_action (history sm ! nat (currentIndex sm)),
                stateToRestore = previousState (history sm ! nat (currentIndex sm)),
                direction = ''undo''\<rparr>),
     sm\<lparr>currentIndex := currentIndex sm - 1\<rparr>)"
  using assms by (simp add: undo_def canUndo_def js_index_def Let_def)

lemma undo_none: "currentIndex sm < 0 \<Longrightarrow> undo sm = (Inr None, sm)"
  by (simp add: undo_def canUndo_def)

lemma redo_step:
  assumes "- 1 \<le> currentIndex sm" "currentIndex sm + 1 < int (length (history sm))"
  shows "redo sm =
    (Inr (Some \<lparr>result_action = entry_action (history sm ! nat (currentIndex sm + 1)),
                stateToRestore = newState (history sm ! nat (currentIndex sm + 1)),
                direction = ''redo''\<rparr>),
     sm\<lparr>currentIndex := currentIndex sm + 1\<rparr>)"
  using assms by (simp add: redo_def canRedo_def js_index_def Let_def)

lemma undo_times_index:
  assumes "- 1 \<le> currentIndex sm" "currentIndex sm < int (length (history sm))"
  shows "undo_times k sm = sm\<lparr>currentIndex := max (currentIndex sm - int k) (- 1)\<rparr>"
  using assms
proof (induction k arbitrary: sm)
  case 0
  then show ?case by (simp add: max_def)
next
  case (Suc k)
  show ?case
  proof (cases "0 \<le> currentIndex sm")
    case True
    with Suc.prems have u: "snd (undo sm) = sm\<lparr>currentIndex := currentIndex sm - 1\<rparr>"
      by (simp add: undo_step)
    have "undo_times k (sm\<lparr>currentIndex := currentIndex sm - 1\<rparr>) =
      sm\<lparr>currentIndex := currentIndex sm - 1\<rparr>
        \<lparr>currentIndex := max (currentIndex (sm\<lparr>currentIndex := currentIndex sm - 1\<rparr>) - int k) (- 1)\<rparr>"
      using True Suc.prems by (intro Suc.IH) simp_all
    then show ?thesis using u by (simp add: algebra_simps)
  next
    case False
    with Suc.prems have ci: "currentIndex sm = - 1" by simp
    then have u: "snd (undo sm) = sm" by (simp add: undo_none)
    have "undo_times k sm = sm\<lparr>currentIndex := max (currentIndex sm - int k) (- 1)\<rparr>"
      using Suc.prems by (intro Suc.IH)
    then show ?thesis using u ci by (simp add: max_def)
  qed
qed

lemmas sm_eval = record_calls_def record_call_def saveState_def Let_def js_slice0_def
  StateManager_new_def entry_of_def cloneState_def test_call_def undo_def redo_def canUndo_def
  canRedo_def js_index_def

text \<open>
  Claim C5. After any sequence of \<open>saveState\<close> calls on a new manager with cap \<open>m\<close>, the
  history is never longer than \<open>m\<close>: it holds the entries of the most recent \<open>m\<close> calls, in
  order, and the pointer is at its tail. A call made when the history is full evicts
  exactly the oldest entry and moves the pointer back by one, so that it still points at
  the new entry. \<open>undo\<close> is then available exactly \<open>min n m\<close> times, and the \<open>k\<close>-th undo
  restores the snapshot taken before the \<open>k\<close>-th most recent call.
\<close>

theorem history_capped:
  "let sm = record_calls (StateManager_new\<lparr>maxHistorySize := m\<rparr>) cs; n = length cs in
     length (history sm) \<le> m
   \<and> history sm = drop (n - m) (map entry_of cs)
   \<and> currentIndex sm = int (min n m) - 1
   \<and> (length (history sm) = m \<longrightarrow>
         history (record_call sm c) = tl (history sm @ [entry_of c])
       \<and> currentIndex (record_call sm c) = (int (length (history sm @ [entry_of c])) - 1) - 1
       \<and> length (history (record_call sm c)) = m
       \<and> (1 \<le> m \<longrightarrow> js_index (history (record_call sm c)) (currentIndex (record_call sm c))
                         = Some (entry_of c)))
   \<and> (\<forall>k. canUndo (undo_times k sm) = (k < min n m))
   \<and> (\<forall>k<min n m. fst (undo (undo_times k sm)) =
         Inr (Some \<lparr>result_action = entry_action (entry_of (cs ! (n - 1 - k))),
                    stateToRestore = cloneState (call_prev (cs ! (n - 1 - k))),
                    direction = ''undo''\<rparr>))"
proof -
  define sm where "sm = record_calls (StateManager_new\<lparr>maxHistorySize := m\<rparr>) cs"
  define n where "n = length cs"
  from record_calls_state [of m cs]
  have h: "history sm = drop (n - m) (map entry_of cs)"
    and i: "currentIndex sm = int (length (history sm)) - 1"
    and cap: "maxHistorySize sm = m"
    unfolding sm_def n_def by simp_all
  have len: "length (history sm) = min n m" unfolding h n_def by simp
  have c1: "length (history sm) \<le> m" unfolding len by simp
  have c3: "currentIndex sm = int (min n m) - 1" unfolding i len ..
  from i have inv: "- 1 \<le> currentIndex sm" "currentIndex sm < int (length (history sm))"
    by simp_all
  from i have kept: "take (nat (currentIndex sm + 1)) (history sm) = history sm" by simp
  have step: "history (record_call sm c) =
     (if length (history sm) + 1 > m then tl (history sm @ [entry_of c])
      else history sm @ [entry_of c])"
    using record_call_history [OF inv, of c] unfolding kept cap .
  have c4: "length (history sm) = m \<longrightarrow>
         history (record_call sm c) = tl (history sm @ [entry_of c])
       \<and> currentIndex (record_call sm c) = (int (length (history sm @ [entry_of c])) - 1) - 1
       \<and> length (history (record_call sm c)) = m
       \<and> (1 \<le> m \<longrightarrow> js_index (history (record_call sm c)) (currentIndex (record_call sm c))
                         = Some (entry_of c))"
  proof
    assume full: "length (history sm) = m"
    with step have e: "history (record_call sm c) = tl (history sm @ [entry_of c])" by simp
    then have l: "length (history (record_call sm c)) = m" using full by simp
    have t: "currentIndex (record_call sm c) = int m - 1"
      unfolding record_call_tail l ..
    have "1 \<le> m \<longrightarrow> js_index (history (record_call sm c)) (currentIndex (record_call sm c))
                         = Some (entry_of c)"
    proof
      assume m: "1 \<le> m"
      with full have ne: "history sm \<noteq> []" by auto
      then have "tl (history sm @ [entry_of c]) = tl (history sm) @ [entry_of c]" by simp
      moreover have "length (tl (history sm)) = m - 1" using full by simp
      ultimately have "history (record_call sm c) ! (m - 1) = entry_of c"
        unfolding e by (simp add: nth_append)
      moreover from m have "nat (int m - 1) = m - 1" by simp
      ultimately show "js_index (history (record_call sm c)) (currentIndex (record_call sm c))
                         = Some (entry_of c)"
        using m l unfolding t js_index_def by simp
    qed
    with e l t full show "history (record_call sm c) = tl (history sm @ [entry_of c])
       \<and> currentIndex (record_call sm c) = (int (length (history sm @ [entry_of c])) - 1) - 1
       \<and> length (history (record_call sm c)) = m
       \<and> (1 \<le> m \<longrightarrow> js_index (history (record_call sm c)) (currentIndex (record_call sm c))
                         = Some (entry_of c))"
      by simp
  qed
  have ut: "\<And>k. undo_times k sm = sm\<lparr>currentIndex := max (currentIndex sm - int k) (- 1)\<rparr>"
    by (rule undo_times_index [OF inv])
  have c5: "\<forall>k. canUndo (undo_times k sm) = (k < min n m)"
    unfolding ut canUndo_def c3 by auto
  have c6: "\<forall>k<min n m. fst (undo (undo_times k sm)) =
         Inr (Some \<lparr>result_action = entry_action (entry_of (cs ! (n - 1 - k))),
                    stateToRestore = cloneState (call_prev (cs ! (n - 1 - k))),
                    direction = ''undo''\<rparr>)"
  proof (intro allI impI)
    fix k assume k: "k < min n m"
    let ?s = "undo_times k sm"
    from k have ci: "currentIndex ?s = int (min n m - 1 - k)" unfolding ut c3 by auto
    have hs: "history ?s = history sm" unfolding ut by simp
    from k have idx: "n - m + (min n m - 1 - k) = n - 1 - k" by auto
    from k have "min n m - 1 - k < length (history sm)" unfolding len by auto
    moreover from k have "n - 1 - k < length cs" unfolding n_def by auto
    ultimately have ent: "history sm ! (min n m - 1 - k) = entry_of (cs ! (n - 1 - k))"
      unfolding h using k idx by (simp add: n_def)
    have "0 \<le> currentIndex ?s" "currentIndex ?s < int (length (history ?s))"
      unfolding ci hs len using k by auto
    from undo_step [OF this]
    have "fst (undo ?s) =
         Inr (Some \<lparr>result_action = entry_action (history ?s ! nat (currentIndex ?s)),
                    stateToRestore = previousState (history ?s ! nat (currentIndex ?s)),
                    direction = ''undo''\<rparr>)"
      by simp
    moreover have "history ?s ! nat (currentIndex ?s) = entry_of (cs ! (n - 1 - k))"
      unfolding ci hs using ent by simp
    ultimately show "fst (undo ?s) =
         Inr (Some \<lparr>result_action = entry_action (entry_of (cs ! (n - 1 - k))),
                    stateToRestore = cloneState (call_prev (cs ! (n - 1 - k))),
                    direction = ''undo''\<rparr>)"
      by (simp add: entry_of_def)
  qed
  from c1 h c3 c4 c5 c6 show ?thesis unfolding sm_def n_def Let_def by blast
qed

theorem history_capped_witness:
  "let sm = record_calls (StateManager_new\<lparr>maxHistorySize := 2\<rparr>)
              [test_call 0, test_call 1, test_call 2] in
     length (history sm) = 2
   \<and> history sm = [entry_of (test_call 1), entry_of (test_call 2)]
   \<and> currentIndex sm = 1
   \<and> history (record_call sm (test_call 3)) = [entry_of (test_call 2), entry_of (test_call 3)]
   \<and> currentIndex (record_call sm (test_call 3)) = 1
   \<and> canUndo (undo_times 1 sm) \<and> \<not> canUndo (undo_times 2 sm)
   \<and> (0::nat) < min 3 2
   \<and> fst (undo sm) = Inr (Some \<lparr>result_action = entry_action (entry_of (test_call 2)),
                                stateToRestore = JObj [(''count'', JNum 2)],
                                direction = ''undo''\<rparr>)"
  using history_capped [of 2 "[test_call 0, test_call 1, test_call 2]" "test_call 3"]
  by (simp add: sm_eval numeral_2_eq_2)

text \<open>
  Claim C6. In every manager reachable by \<open>saveState\<close>, \<open>undo\<close> and \<open>redo\<close>, a new
  \<open>saveState\<close> keeps the entries up to the pointer and drops the ones after it, appends the
  new entry (evicting the oldest one if the cap is exceeded) and puts the pointer on the new
  tail; afterwards \<open>canRedo\<close> is false, in particular when the call follows an \<open>undo\<close>.
\<close>

theorem saveState_discards_redo:
  assumes "reachable m sm"
  shows "(let kept = take (nat (currentIndex sm + 1)) (history sm);
              sm' = record_call sm c
          in history sm' = (if length kept + 1 > m then tl (kept @ [entry_of c])
                            else kept @ [entry_of c])
           \<and> currentIndex sm' = int (length (history sm')) - 1
           \<and> \<not> canRedo sm')
       \<and> \<not> canRedo (record_call (snd (undo sm)) c)"
proof -
  from reachable_inv [OF assms]
  have cap: "maxHistorySize sm = m"
    and inv: "- 1 \<le> currentIndex sm" "currentIndex sm < int (length (history sm))" by simp_all
  have "history (record_call sm c) =
    (if length (take (nat (currentIndex sm + 1)) (history sm)) + 1 > m
     then tl (take (nat (currentIndex sm + 1)) (history sm) @ [entry_of c])
     else take (nat (currentIndex sm + 1)) (history sm) @ [entry_of c])"
    using record_call_history [OF inv, of c] unfolding cap .
  moreover have "\<And>s. \<not> canRedo (record_call s c)"
    unfolding canRedo_def record_call_tail by simp
  ultimately show ?thesis unfolding Let_def by (simp add: record_call_tail)
qed

theorem saveState_discards_redo_witness:
  "let sm = snd (undo (record_call (record_call (StateManager_new\<lparr>maxHistorySize := 2\<rparr>)
                         (test_call 0)) (test_call 1))) in
     reachable 2 sm \<and> canRedo sm
   \<and> history (record_call sm (test_call 2)) = [entry_of (test_call 0), entry_of (test_call 2)]
   \<and> \<not> canRedo (record_call sm (test_call 2))"
proof -
  have r: "reachable 2 (snd (undo (record_call (record_call (StateManager_new\<lparr>maxHistorySize := 2\<rparr>)
                         (test_call 0)) (test_call 1))))"
    unfolding record_call_def by (intro reach_undo reach_save reach_new)
  from saveState_discards_redo [OF r, of "test_call 2"] r show ?thesis
    by (simp add: sm_eval)
qed

text \<open>
  Claim C7, as stated: after recording an action, \<open>undo\<close> returns exactly the snapshot taken
  before it. What \<open>undo\<close> returns is the clone \<open>saveState\<close> stored, made by
  \<^verbatim>\<open>JSON.parse(JSON.stringify(...))\<close>: of the snapshot \<^verbatim>\<open>{count: undefined}\<close> it returns \<^verbatim>\<open>{}\<close>.
\<close>

theorem undo_snapshot_counterexample:
  "let c = (test_call 0)\<lparr>call_prev := JObj [(''count'', JUndefined)]\<rparr>;
       sm = record_calls (StateManager_new\<lparr>maxHistorySize := 100\<rparr>) [c]
   in length [c] \<le> 100
    \<and> map_sum id (map_option stateToRestore) (fst (undo sm)) = Inr (Some (JObj []))
    \<and> JObj [] \<noteq> call_prev c"
  by (simp add: sm_eval test_call_def undo_def canUndo_def js_index_def cloneState_def
      StateManager_new_def)

text \<open>
  Claim C7, amended. After a sequence of at most \<open>maxHistorySize\<close> recorded actions that ends
  with an action \<open>c\<close>, \<open>undo\<close> returns the clone \<open>cloneState\<close> stored of the snapshot before
  \<open>c\<close>, and \<open>redo\<close> right afterwards returns the stored clone of the snapshot after \<open>c\<close> and
  puts the manager back. For a JSON value, one with no undefined inside, the clone is the
  value itself.
\<close>

theorem undo_redo_roundtrip:
  assumes "length (cs @ [c]) \<le> m"
  shows "let sm = record_calls (StateManager_new\<lparr>maxHistorySize := m\<rparr>) (cs @ [c]) in
      undo sm = (Inr (Some \<lparr>result_action = entry_action (entry_of c),
                            stateToRestore = cloneState (call_prev c),
                            direction = ''undo''\<rparr>),
                 sm\<lparr>currentIndex := currentIndex sm - 1\<rparr>)
    \<and> redo (snd (undo sm)) = (Inr (Some \<lparr>result_action = entry_action (entry_of c),
                                         stateToRestore = cloneState (call_new c),
                                         direction = ''redo''\<rparr>), sm)
    \<and> (is_json (call_prev c) \<longrightarrow> cloneState (call_prev c) = call_prev c)
    \<and> (is_json (call_new c) \<longrightarrow> cloneState (call_new c) = call_new c)"
proof -
  define sm where "sm = record_calls (StateManager_new\<lparr>maxHistorySize := m\<rparr>) (cs @ [c])"
  from record_calls_state [of m "cs @ [c]"]
  have h: "history sm = drop (length (cs @ [c]) - m) (map entry_of (cs @ [c]))"
    and i: "currentIndex sm = int (length (history sm)) - 1"
    unfolding sm_def by simp_all
  from assms have h': "history sm = map entry_of cs @ [entry_of c]" unfolding h by simp
  then have len: "length (history sm) = length cs + 1" by simp
  have ci: "currentIndex sm = int (length cs)" unfolding i len by simp
  have last: "history sm ! length cs = entry_of c" unfolding h' by (simp add: nth_append)
  have "0 \<le> currentIndex sm" "currentIndex sm < int (length (history sm))"
    unfolding ci len by simp_all
  from undo_step [OF this]
  have u: "undo sm = (Inr (Some \<lparr>result_action = entry_action (entry_of c),
                            stateToRestore = cloneState (call_prev c),
                            direction = ''undo''\<rparr>),
                 sm\<lparr>currentIndex := currentIndex sm - 1\<rparr>)"
    unfolding ci by (simp add: last) (simp add: entry_of_def)
  let ?s1 = "sm\<lparr>currentIndex := currentIndex sm - 1\<rparr>"
  have "- 1 \<le> currentIndex ?s1" "currentIndex ?s1 + 1 < int (length (history ?s1))"
    unfolding ci using len by simp_all
  from redo_step [OF this]
  have r: "redo ?s1 = (Inr (Some \<lparr>result_action = entry_action (entry_of c),
                                         stateToRestore = cloneState (call_new c),
                                         direction = ''redo''\<rparr>), sm)"
    using ci by (simp add: last) (simp add: entry_of_def)
  have j: "\<And>v. is_json v \<longrightarrow> cloneState v = v"
    by (simp add: cloneState_def json_roundtrip_id)
  from u r j show ?thesis unfolding sm_def [symmetric] Let_def by simp
qed

theorem undo_redo_roundtrip_witness:
  "let sm = record_calls (StateManager_new\<lparr>maxHistorySize := 100\<rparr>) ([test_call 0] @ [test_call 1]) in
     length ([test_call 0] @ [test_call 1]) \<le> 100
   \<and> is_json (call_prev (test_call 1)) \<and> is_json (call_new (test_call 1))
   \<and> fst (undo sm) = Inr (Some \<lparr>result_action = entry_action (entry_of (test_call 1)),
                                stateToRestore = JObj [(''count'', JNum 1)],
                                direction = ''undo''\<rparr>)
   \<and> fst (redo (snd (undo sm))) = Inr (Some \<lparr>result_action = entry_action (entry_of (test_call 1)),
                                stateToRestore = JObj [(''count'', JNum 2)],
                                direction = ''redo''\<rparr>)
   \<and> snd (redo (snd (undo sm))) = sm"
  using undo_redo_roundtrip [of "[test_call 0]" "test_call 1" 100]
  by (simp add: sm_eval)

section \<open>Properties of FileOperations\<close>

declare string_of_nat.simps [simp del]

lemma string_of_nat_digits: "c \<in> set (string_of_nat n) \<Longrightarrow> 48 \<le> (of_char c :: nat) \<and> (of_char c :: nat) \<le> 57"
proof (induction n rule: string_of_nat.induct)
  case (1 n)
  show ?case
  proof (cases "10 \<le> n")
    case False
    with "1.prems" show ?thesis by (simp add: string_of_nat.simps [of n] digit_char_def)
  next
    case True
    with "1.prems" have "c \<in> set (string_of_nat (n div 10)) \<or> c = digit_char (n mod 10)"
      by (auto simp: string_of_nat.simps [of n])
    then show ?thesis
    proof
      assume "c \<in> set (string_of_nat (n div 10))"
      with "1.IH" True show ?thesis by simp
    next
      assume "c = digit_char (n mod 10)"
      moreover have "n mod 10 < 10" by simp
      ultimately show ?thesis by (simp add: digit_char_def)
    qed
  qed
qed

lemma string_of_nat_nonempty: "string_of_nat n \<noteq> []"
  by (simp add: string_of_nat.simps [of n])

text \<open>A name that starts with a letter is neither an index nor \<open>length\<close>.\<close>

lemma not_index:
  assumes "p \<noteq> []" "(of_char (hd p) :: nat) < 48 \<or> 57 < (of_char (hd p) :: nat)"
  shows "p \<noteq> string_of_nat i"
proof
  assume e: "p = string_of_nat i"
  with assms(1) have "hd p \<in> set (string_of_nat i)" by simp
  from string_of_nat_digits [OF this] assms(2) show False by simp
qed

lemma array_no_prop:
  assumes "p \<noteq> []" "(of_char (hd p) :: nat) < 48 \<or> 57 < (of_char (hd p) :: nat)" "p \<noteq> ''length''"
  shows "p \<notin> fst ` set (own_props (JArr xs))"
proof
  assume "p \<in> fst ` set (own_props (JArr xs))"
  with assms(3) have "p \<in> fst ` set (zip (map string_of_nat [0..<length xs]) xs)" by auto
  then obtain v where "(p, v) \<in> set (zip (map string_of_nat [0..<length xs]) xs)" by auto
  then have "p \<in> set (map string_of_nat [0..<length xs])" by (rule set_zip_leftD)
  then obtain i where "p = string_of_nat i" by auto
  with not_index [OF assms(1,2)] show False by blast
qed

lemma get_prop_obj:
  "get_prop (JObj kvs) p = Inr (case map_of kvs p of None \<Rightarrow> JUndefined | Some x \<Rightarrow> x)"
  by (simp add: get_prop_def own_prop_def)

lemma get_prop_arr:
  assumes "p \<noteq> []" "(of_char (hd p) :: nat) < 48 \<or> 57 < (of_char (hd p) :: nat)" "p \<noteq> ''length''"
  shows "get_prop (JArr xs) p = Inr JUndefined"
proof -
  from array_no_prop [OF assms, of xs] have "map_of (own_props (JArr xs)) p = None"
    by (simp add: map_of_eq_None_iff del: own_props.simps)
  then show ?thesis by (simp add: get_prop_def own_prop_def del: own_props.simps)
qed

lemma missing_prop_obj:
  "missing_prop ps (JObj kvs) = Inr (\<exists>p\<in>set ps. p \<notin> fst ` set kvs)"
  by (induction ps) (auto simp: bindE_def)

lemma missing_prop_arr:
  "missing_prop ps (JArr xs) = Inr (\<exists>p\<in>set ps. p \<notin> fst ` set (own_props (JArr xs)))"
  by (induction ps) (auto simp: bindE_def simp del: own_props.simps)

lemma missing_prop_throw:
  "ps \<noteq> [] \<Longrightarrow> (\<forall>kvs. v \<noteq> JObj kvs) \<Longrightarrow> (\<forall>xs. v \<noteq> JArr xs) \<Longrightarrow> missing_prop ps v = Inl TypeError"
  by (cases ps; cases v) (simp_all add: bindE_def)

lemma num_at_typeof:
  "num_at kvs k = (js_typeof (case map_of kvs k of None \<Rightarrow> JUndefined | Some x \<Rightarrow> x) = ''number'')"
  by (auto simp: num_at_def split: option.splits jsval.splits)

lemma typeof_object:
  "(truthy v \<and> js_typeof v = ''object'') = ((\<exists>kvs. v = JObj kvs) \<or> (\<exists>xs. v = JArr xs))"
  by (cases v) simp_all

lemma validate_position:
  "(case bindE (get_prop position ''x'') (\<lambda>x. bindE (get_prop position ''y'') (\<lambda>y.
       if js_typeof x \<noteq> ''number'' \<or> js_typeof y \<noteq> ''number'' then Inr False else k))
    of Inl e \<Rightarrow> False | Inr b \<Rightarrow> b) = 
   (case position of JObj pos \<Rightarrow> num_at pos ''x'' \<and> num_at pos ''y'' \<and> (case k of Inl e \<Rightarrow> False | Inr b \<Rightarrow> b) | _ \<Rightarrow> False)"
  if "truthy position" "js_typeof position = ''object''"
  using that
  by (cases position) (auto simp: get_prop_obj get_prop_arr bindE_def num_at_typeof)

lemma bindE_Inr: "bindE (Inr x) f = f x"
  by (simp add: bindE_def)

lemma bindE_Inl: "bindE (Inl e) f = Inl e"
  by (simp add: bindE_def)


lemma validate_config:
  assumes "truthy config" "js_typeof config = ''object''"
  shows "(case bindE (missing_prop [''startFret'', ''endFret'', ''stringCount'', ''tuning'', ''orientation''] config)
      (\<lambda>missing. if missing then Inr False else
        bindE (get_prop config ''startFret'') (\<lambda>startFret.
        bindE (get_prop config ''endFret'') (\<lambda>endFret.
        bindE (get_prop config ''stringCount'') (\<lambda>stringCount.
        if js_typeof startFret \<noteq> ''number'' \<or> js_typeof endFret \<noteq> ''number''
           \<or> js_typeof stringCount \<noteq> ''number'' then Inr False else
        bindE (get_prop config ''tuning'') (\<lambda>tuning.
        if \<not> isArray tuning then Inr False else Inr True)))))
    of Inl e \<Rightarrow> False | Inr b \<Rightarrow> b) =
   (case config of
      JObj cfg \<Rightarrow> num_at cfg ''startFret'' \<and> num_at cfg ''endFret'' \<and> num_at cfg ''stringCount''
                \<and> (case map_of cfg ''tuning'' of Some (JArr t) \<Rightarrow> True | _ \<Rightarrow> False)
                \<and> ''orientation'' \<in> fst ` set cfg
    | _ \<Rightarrow> False)"
proof (cases config)
  case (JArr xs)
  have "''startFret'' \<notin> fst ` set (own_props (JArr xs))" by (rule array_no_prop) simp_all
  then show ?thesis unfolding JArr by (simp add: missing_prop_arr bindE_def del: own_props.simps)
next
  case (JObj cfg)
  have t: "isArray (case map_of cfg ''tuning'' of None \<Rightarrow> JUndefined | Some x \<Rightarrow> x)
     = (case map_of cfg ''tuning'' of Some (JArr t) \<Rightarrow> True | _ \<Rightarrow> False)"
    by (simp split: option.splits jsval.splits)
  have k: "\<And>k. num_at cfg k \<Longrightarrow> k \<in> fst ` set cfg"
    by (auto simp: num_at_def split: option.splits dest: map_of_SomeD intro: rev_image_eqI)
  have k': "(case map_of cfg ''tuning'' of Some (JArr t) \<Rightarrow> True | _ \<Rightarrow> False) \<Longrightarrow> ''tuning'' \<in> fst ` set cfg"
    by (auto split: option.splits dest: map_of_SomeD intro: rev_image_eqI)
  show ?thesis unfolding JObj
    by (auto simp: missing_prop_obj get_prop_obj bindE_def t num_at_typeof [symmetric] dest: k k')
qed (use assms in simp_all)

lemma validateGridStructure_missing_key:
  assumes "\<not> (''id'' \<in> fst ` set kvs \<and> ''position'' \<in> fst ` set kvs \<and> ''config'' \<in> fst ` set kvs)"
  shows "validateGridStructure (JObj kvs) = False"
  using assms unfolding validateGridStructure_def validateGridStructure_try_def
  by (auto simp: missing_prop_obj bindE_Inr)

lemma grid_shape_missing_key:
  assumes "\<not> (''id'' \<in> fst ` set kvs \<and> ''position'' \<in> fst ` set kvs \<and> ''config'' \<in> fst ` set kvs)"
  shows "grid_shape (JObj kvs) = False"
proof -
  from assms have "map_of kvs ''position'' = None \<or> map_of kvs ''config'' = None \<or> ''id'' \<notin> fst ` set kvs"
    by (auto simp: map_of_eq_None_iff)
  then show ?thesis by (auto simp: grid_shape_def)
qed

lemma validateGridStructure_try_obj:
  assumes "''id'' \<in> fst ` set kvs" "map_of kvs ''position'' = Some pv" "map_of kvs ''config'' = Some cv"
  shows "validateGridStructure_try (JObj kvs) =
    (if \<not> truthy pv \<or> js_typeof pv \<noteq> ''object'' then Inr False else
     bindE (get_prop pv ''x'') (\<lambda>x. bindE (get_prop pv ''y'') (\<lambda>y.
       if js_typeof x \<noteq> ''number'' \<or> js_typeof y \<noteq> ''number'' then Inr False else
       if \<not> truthy cv \<or> js_typeof cv \<noteq> ''object'' then Inr False else
       bindE (missing_prop [''startFret'', ''endFret'', ''stringCount'', ''tuning'', ''orientation''] cv)
      (\<lambda>missing. if missing then Inr False else
        bindE (get_prop cv ''startFret'') (\<lambda>startFret.
        bindE (get_prop cv ''endFret'') (\<lambda>endFret.
        bindE (get_prop cv ''stringCount'') (\<lambda>stringCount.
        if js_typeof startFret \<noteq> ''number'' \<or> js_typeof endFret \<noteq> ''number''
           \<or> js_typeof stringCount \<noteq> ''number'' then Inr False else
        bindE (get_prop cv ''tuning'') (\<lambda>tuning.
        if \<not> isArray tuning then Inr False else Inr True))))))))"
proof -
  from assms have k: "''position'' \<in> fst ` set kvs" "''config'' \<in> fst ` set kvs"
    by (auto dest: map_of_SomeD intro: rev_image_eqI)
  have m: "missing_prop [''id'', ''position'', ''config''] (JObj kvs) = Inr False"
    using assms(1) k by (simp add: missing_prop_obj)
  have p: "get_prop (JObj kvs) ''position'' = Inr pv" "get_prop (JObj kvs) ''config'' = Inr cv"
    using assms by (simp_all add: get_prop_obj)
  show ?thesis unfolding validateGridStructure_try_def m p bindE_Inr by simp
qed


lemma caught_if:
  "(case (if c then Inr False else k) of Inl e \<Rightarrow> False | Inr b \<Rightarrow> b) =
     (\<not> c \<and> (case k of Inl (e::js_error) \<Rightarrow> False | Inr b \<Rightarrow> b))"
  by simp

lemma obj_typeof: "(\<not> truthy v \<or> js_typeof v \<noteq> ''object'') \<Longrightarrow> v \<noteq> JObj kvs"
  by auto

lemma validateGridStructure_shape: "validateGridStructure g = grid_shape g"
proof (cases g)
  case (JArr xs)
  have "''id'' \<notin> fst ` set (own_props (JArr xs))" by (rule array_no_prop) simp_all
  then show ?thesis unfolding JArr validateGridStructure_def validateGridStructure_try_def
    by (simp add: missing_prop_arr bindE_Inr grid_shape_def del: own_props.simps)
next
  case (JObj kvs)
  show ?thesis
  proof (cases "''id'' \<in> fst ` set kvs \<and> ''position'' \<in> fst ` set kvs \<and> ''config'' \<in> fst ` set kvs")
    case False
    from validateGridStructure_missing_key [OF False] grid_shape_missing_key [OF False] show ?thesis unfolding JObj by simp
  next
    case True
    then obtain pv cv where pv: "map_of kvs ''position'' = Some pv" and cv: "map_of kvs ''config'' = Some cv"
      by (metis map_of_eq_None_iff not_Some_eq)
    from True have id: "''id'' \<in> fst ` set kvs" by simp
    note tr = validateGridStructure_try_obj [OF id pv cv]
    show ?thesis
    proof (cases "\<not> truthy pv \<or> js_typeof pv \<noteq> ''object''")
      case pf: True
      then have "\<And>pos. pv \<noteq> JObj pos" by auto
      then have "\<not> grid_shape (JObj kvs)" by (auto simp: grid_shape_def pv split: jsval.splits)
      moreover have "\<not> validateGridStructure (JObj kvs)"
        unfolding validateGridStructure_def tr using pf by simp
      ultimately show ?thesis unfolding JObj by simp
    next
      case pt: False
      then have pt': "truthy pv" "js_typeof pv = ''object''" by simp_all
      let ?K = "bindE (missing_prop [''startFret'', ''endFret'', ''stringCount'', ''tuning'', ''orientation''] cv)
      (\<lambda>missing. if missing then Inr False else
        bindE (get_prop cv ''startFret'') (\<lambda>startFret.
        bindE (get_prop cv ''endFret'') (\<lambda>endFret.
        bindE (get_prop cv ''stringCount'') (\<lambda>stringCount.
        if js_typeof startFret \<noteq> ''number'' \<or> js_typeof endFret \<noteq> ''number''
           \<or> js_typeof stringCount \<noteq> ''number'' then Inr False else
        bindE (get_prop cv ''tuning'') (\<lambda>tuning.
        if \<not> isArray tuning then Inr False else Inr True)))))"
      let ?k = "if \<not> truthy cv \<or> js_typeof cv \<noteq> ''object'' then Inr False else ?K"
      have v: "validateGridStructure (JObj kvs) =
        (case pv of JObj pos \<Rightarrow> num_at pos ''x'' \<and> num_at pos ''y''
            \<and> (case ?k of Inl e \<Rightarrow> False | Inr b \<Rightarrow> b) | _ \<Rightarrow> False)"
        unfolding validateGridStructure_def tr if_not_P [OF pt]
        by (rule validate_position [OF pt'])
      show ?thesis
      proof (cases "\<not> truthy cv \<or> js_typeof cv \<noteq> ''object''")
        case cf: True
        then have "\<And>cfg. cv \<noteq> JObj cfg" by auto
        then have "\<not> grid_shape (JObj kvs)" by (auto simp: grid_shape_def cv split: jsval.splits)
        moreover have "\<not> validateGridStructure (JObj kvs)"
          unfolding v if_P [OF cf] by (simp split: jsval.splits)
        ultimately show ?thesis unfolding JObj by simp
      next
        case ct: False
        then have ct': "truthy cv" "js_typeof cv = ''object''" by simp_all
        show ?thesis unfolding JObj v if_not_P [OF ct] validate_config [OF ct'] grid_shape_def
          using id by (simp add: pv cv split: jsval.splits)
      qed
    qed
  qed
qed (simp_all add: validateGridStructure_def validateGridStructure_try_def bindE_Inl grid_shape_def)

lemma get_prop_defined:
  "v \<noteq> JUndefined \<Longrightarrow> v \<noteq> JNull \<Longrightarrow> get_prop v p = Inr (own_prop v p)"
  by (simp add: get_prop_def)

lemma saveData_of_defined:
  assumes "canvasState \<noteq> JUndefined" "canvasState \<noteq> JNull"
  shows "saveData_of fo now canvasState =
    Inr (JObj
      [(''version'', JStr (fileVersion fo)),
       (''timestamp'', JNum now),
       (''metadata'', JObj
          [(''application'', JStr ''Gitaroo Guitar Fretboard Learning Tool''),
           (''createdBy'', JStr ''user''),
           (''description'', JStr ''Guitar fretboard diagram with notes and configurations'')]),
       (''canvas'', JObj
          [(''orientation'', js_or (own_prop canvasState ''orientation'') (JStr ''portrait'')),
           (''locked'', js_or (own_prop canvasState ''locked'') (JBool False)),
           (''dimensions'', js_or (own_prop canvasState ''dimensions'')
              (JObj [(''width'', JNum 816), (''height'', JNum 1056)]))]),
       (''grids'', js_or (own_prop canvasState ''grids'') (JArr [])),
       (''notes'', js_or (own_prop canvasState ''notes'') (JObj [])),
       (''rootNote'', js_or (own_prop canvasState ''rootNote'') JNull),
       (''intervals'', js_or (own_prop canvasState ''intervals'') (JObj [])),
       (''settings'', js_or (own_prop canvasState ''settings'') (JObj []))])"
  unfolding saveData_of_def get_prop_defined [OF assms] bindE_Inr ..

lemma saveData_of_nullish:
  "canvasState = JUndefined \<or> canvasState = JNull \<Longrightarrow> saveData_of fo now canvasState = Inl TypeError"
  by (auto simp: saveData_of_def get_prop_def bindE_Inl)

lemma list_all_shape: "list_all validateGridStructure gs = list_all grid_shape gs"
  by (simp add: validateGridStructure_shape [abs_def])

lemma validateSaveData_built:
  "validateSaveData (JObj
      [(''version'', v), (''timestamp'', ts), (''metadata'', md), (''canvas'', JObj cv),
       (''grids'', grids), (''notes'', notes), (''rootNote'', rn), (''intervals'', iv),
       (''settings'', st)]) =
   ((case grids of JArr gs \<Rightarrow> list_all grid_shape gs | _ \<Rightarrow> False)
    \<and> (truthy notes \<longrightarrow> js_typeof notes = ''object''))"
  unfolding validateSaveData_def validateSaveData_try_def
  by (simp add: missing_prop_obj get_prop_obj bindE_Inr list_all_shape split: jsval.splits)

lemma js_or_truthy: "truthy b \<Longrightarrow> truthy (js_or a b)"
  by (simp add: js_or_def)

text \<open>
  Claim C2, amended. For every canvas state other than null and undefined, \<open>saveCanvas\<close>
  validates the shape of the data it is about to write: \<^verbatim>\<open>grids\<close> is an array of grids of
  the shape \<open>grid_shape\<close> (the required properties, with numbers and an array where the
  code asks for them) and \<^verbatim>\<open>notes\<close> is an object. When the shape is wrong it writes no
  document, changes nothing and reports the one error
  \<open>''Invalid data structure for saving''\<close>; otherwise it writes the document. The values of
  the frets, the length of the tuning and the coordinates of the notes are not inspected.
\<close>

theorem saveCanvas_validates_shape:
  assumes "canvasState \<noteq> JUndefined" "canvasState \<noteq> JNull"
  shows "let grids = js_or (own_prop canvasState ''grids'') (JArr []);
             notes = js_or (own_prop canvasState ''notes'') (JObj []);
             shape_ok = ((case grids of JArr gs \<Rightarrow> list_all grid_shape gs | _ \<Rightarrow> False)
                         \<and> js_typeof notes = ''object'')
         in (\<not> shape_ok \<longrightarrow>
               saveCanvas now generated fo canvasState filename =
                 (\<lparr>save_success = False, save_filename = None,
                   save_error = Some ''Invalid data structure for saving'',
                   save_document = None\<rparr>, fo))
          \<and> (shape_ok \<longrightarrow>
               (\<exists>doc fname. saveData_of fo now canvasState = Inr doc
                 \<and> saveCanvas now generated fo canvasState filename =
                     (\<lparr>save_success = True, save_filename = Some fname, save_error = None,
                       save_document = Some doc\<rparr>,
                      fo\<lparr>stateManager := markAsSaved (stateManager fo),
                         currentFileName := Some fname\<rparr>)))"
proof -
  define grs where "grs = js_or (own_prop canvasState ''grids'') (JArr [])"
  define nts where "nts = js_or (own_prop canvasState ''notes'') (JObj [])"
  define shape_ok where "shape_ok = ((case grs of JArr gs \<Rightarrow> list_all grid_shape gs | _ \<Rightarrow> False)
                         \<and> js_typeof nts = ''object'')"
  obtain doc where doc: "saveData_of fo now canvasState = Inr doc"
    and valid: "validateSaveData doc =
      ((case grs of JArr gs \<Rightarrow> list_all grid_shape gs | _ \<Rightarrow> False)
        \<and> (truthy nts \<longrightarrow> js_typeof nts = ''object''))"
    unfolding grs_def nts_def
    using saveData_of_defined [OF assms, of fo now] validateSaveData_built by simp
  have "truthy nts" unfolding nts_def by (rule js_or_truthy) simp
  with valid have v: "validateSaveData doc = shape_ok" unfolding shape_ok_def by simp
  have bad: "\<not> shape_ok \<longrightarrow>
               saveCanvas now generated fo canvasState filename =
                 (\<lparr>save_success = False, save_filename = None,
                   save_error = Some ''Invalid data structure for saving'',
                   save_document = None\<rparr>, fo)"
    unfolding saveCanvas_def doc bindE_Inr v by (simp add: Let_def)
  have good: "shape_ok \<longrightarrow>
               (\<exists>doc fname. saveData_of fo now canvasState = Inr doc
                 \<and> saveCanvas now generated fo canvasState filename =
                     (\<lparr>save_success = True, save_filename = Some fname, save_error = None,
                       save_document = Some doc\<rparr>,
                      fo\<lparr>stateManager := markAsSaved (stateManager fo),
                         currentFileName := Some fname\<rparr>))"
    unfolding saveCanvas_def doc bindE_Inr v by (simp add: Let_def)
  from bad good show ?thesis
    unfolding Let_def shape_ok_def grs_def nts_def by blast
qed

lemmas fo_eval = mockCanvasState_def mock_grid_def own_prop_def js_or_def grid_shape_def
  num_at_def FileOperations_new_def StateManager_new_def

theorem saveCanvas_validates_shape_witness:
  "mockCanvasState [mock_grid (JNum 0) (JNum 7) (JNum 6) (JStr ''not-an-array'')] \<noteq> JUndefined
   \<and> mockCanvasState [mock_grid (JNum 0) (JNum 7) (JNum 6) (JStr ''not-an-array'')] \<noteq> JNull
   \<and> \<not> list_all grid_shape [mock_grid (JNum 0) (JNum 7) (JNum 6) (JStr ''not-an-array'')]
   \<and> saveCanvas 0 ''generated.json'' (FileOperations_new StateManager_new)
        (mockCanvasState [mock_grid (JNum 0) (JNum 7) (JNum 6) (JStr ''not-an-array'')])
        (Some ''test-save.json'') =
       (\<lparr>save_success = False, save_filename = None,
         save_error = Some ''Invalid data structure for saving'', save_document = None\<rparr>,
        FileOperations_new StateManager_new)
   \<and> list_all grid_shape [mock_grid (JNum 0) (JNum 7) (JNum 6) (tuning_json standardTuning)]
   \<and> save_success (fst (saveCanvas 0 ''generated.json'' (FileOperations_new StateManager_new)
        (mockCanvasState [mock_grid (JNum 0) (JNum 7) (JNum 6) (tuning_json standardTuning)])
        (Some ''test-save.json'')))"
  using saveCanvas_validates_shape
      [of "mockCanvasState [mock_grid (JNum 0) (JNum 7) (JNum 6) (JStr ''not-an-array'')]"
          0 "''generated.json''" "FileOperations_new StateManager_new" "Some ''test-save.json''"]
    saveCanvas_validates_shape
      [of "mockCanvasState [mock_grid (JNum 0) (JNum 7) (JNum 6) (tuning_json standardTuning)]"
          0 "''generated.json''" "FileOperations_new StateManager_new" "Some ''test-save.json''"]
  by (auto simp: fo_eval tuning_json_def Let_def)

text \<open>
  Claim C2, as stated: \<open>save\<close> validates the fret bounds \<open>0 \<le> start \<le> end \<le> 24\<close> and that the
  tuning has \<open>stringCount\<close> entries, and aborts when one is violated. A grid with frets 10 to
  3 and an empty tuning for 6 strings is saved, and the document holds it.
\<close>

theorem saveCanvas_invariants_counterexample:
  "\<not> ((0::int) \<le> 10 \<and> (10::int) \<le> 3 \<and> (3::int) \<le> 24)
   \<and> int (length ([] :: jsval list)) \<noteq> 6
   \<and> saveCanvas 0 ''generated.json'' (FileOperations_new StateManager_new)
        (mockCanvasState [mock_grid (JNum 10) (JNum 3) (JNum 6) (JArr [])])
        (Some ''test-save.json'') =
       (\<lparr>save_success = True, save_filename = Some ''test-save.json'', save_error = None,
         save_document = Some (JObj
           [(''version'', JStr ''1.0''),
            (''timestamp'', JNum 0),
            (''metadata'', JObj
               [(''application'', JStr ''Gitaroo Guitar Fretboard Learning Tool''),
                (''createdBy'', JStr ''user''),
                (''description'', JStr ''Guitar fretboard diagram with notes and configurations'')]),
            (''canvas'', JObj
               [(''orientation'', JStr ''portrait''),
                (''locked'', JBool False),
                (''dimensions'', JObj [(''width'', JNum 816), (''height'', JNum 1056)])]),
            (''grids'', JArr [mock_grid (JNum 10) (JNum 3) (JNum 6) (JArr [])]),
            (''notes'', JObj []),
            (''rootNote'', JNull),
            (''intervals'', JObj []),
            (''settings'', JObj [(''version'', JStr ''1.0''), (''timestamp'', JNum 0)])])\<rparr>,
        \<lparr>stateManager = StateManager_new, currentFileName = Some ''test-save.json'',
          fileVersion = ''1.0''\<rparr>)"
proof -
  let ?cs = "mockCanvasState [mock_grid (JNum 10) (JNum 3) (JNum 6) (JArr [])]"
  have ne: "?cs \<noteq> JUndefined" "?cs \<noteq> JNull" by (simp_all add: mockCanvasState_def)
  have g: "grid_shape (mock_grid (JNum 10) (JNum 3) (JNum 6) (JArr []))"
    by (simp add: grid_shape_def mock_grid_def num_at_def)
  have sd: "saveData_of (FileOperations_new StateManager_new) 0 ?cs = Inr (JObj
           [(''version'', JStr ''1.0''),
            (''timestamp'', JNum 0),
            (''metadata'', JObj
               [(''application'', JStr ''Gitaroo Guitar Fretboard Learning Tool''),
                (''createdBy'', JStr ''user''),
                (''description'', JStr ''Guitar fretboard diagram with notes and configurations'')]),
            (''canvas'', JObj
               [(''orientation'', JStr ''portrait''),
                (''locked'', JBool False),
                (''dimensions'', JObj [(''width'', JNum 816), (''height'', JNum 1056)])]),
            (''grids'', JArr [mock_grid (JNum 10) (JNum 3) (JNum 6) (JArr [])]),
            (''notes'', JObj []),
            (''rootNote'', JNull),
            (''intervals'', JObj []),
            (''settings'', JObj [(''version'', JStr ''1.0''), (''timestamp'', JNum 0)])])"
    unfolding saveData_of_defined [OF ne]
    by (simp add: mockCanvasState_def own_prop_def js_or_def FileOperations_new_def)
  show ?thesis unfolding saveCanvas_def sd bindE_Inr validateSaveData_built
    using g by (simp add: Let_def FileOperations_new_def markAsSaved_def StateManager_new_def)
qed

lemma first_invalid_grid_None:
  "(first_invalid_grid i gs = None) = list_all validateGridStructure gs"
  by (induction gs arbitrary: i) auto

lemma grid_shape_config:
  assumes "grid_shape g"
  shows "\<exists>kvs cfg t. g = JObj kvs \<and> map_of kvs ''config'' = Some (JObj cfg)
           \<and> map_of cfg ''tuning'' = Some (JArr t)"
proof -
  from assms obtain kvs where g: "g = JObj kvs"
    by (cases g) (simp_all add: grid_shape_def)
  from assms have 1: "case map_of kvs ''config'' of
      Some (JObj cfg) \<Rightarrow> (case map_of cfg ''tuning'' of Some (JArr t) \<Rightarrow> True | _ \<Rightarrow> False)
    | _ \<Rightarrow> False"
    by (auto simp: g grid_shape_def split: option.splits jsval.splits)
  then obtain cfg where c: "map_of kvs ''config'' = Some (JObj cfg)"
    by (auto split: option.splits jsval.splits)
  with 1 have "case map_of cfg ''tuning'' of Some (JArr t) \<Rightarrow> True | _ \<Rightarrow> False" by simp
  then obtain t where "map_of cfg ''tuning'' = Some (JArr t)"
    by (auto split: option.splits jsval.splits)
  with g c show ?thesis by blast
qed

lemma grid_shape_tuning:
  "grid_shape g \<Longrightarrow> isArray (own_prop (own_prop g ''config'') ''tuning'')"
  by (drule grid_shape_config) (auto simp: own_prop_def)

lemma validateLoadData_try_total:
  "\<exists>r. validateLoadData_try data = Inr r"
proof (cases "\<not> truthy data \<or> js_typeof data \<noteq> ''object''")
  case True
  then show ?thesis by (auto simp: validateLoadData_try_def)
next
  case False
  then have d: "data \<noteq> JUndefined" "data \<noteq> JNull" by auto
  show ?thesis unfolding validateLoadData_try_def get_prop_defined [OF d] bindE_Inr
    by (simp split: jsval.splits option.splits)
qed

lemma validateLoadData_rejects:
  assumes "\<not> isArray (own_prop data ''grids'')
     \<or> (\<exists>gs g. own_prop data ''grids'' = JArr gs \<and> g \<in> set gs
           \<and> \<not> isArray (own_prop (own_prop g ''config'') ''tuning''))"
  shows "\<exists>reason. validateLoadData data = Inl reason \<and> reason \<noteq> []"
proof (cases "\<not> truthy data \<or> js_typeof data \<noteq> ''object''")
  case True
  then show ?thesis by (auto simp: validateLoadData_def validateLoadData_try_def)
next
  case False
  then have d: "data \<noteq> JUndefined" "data \<noteq> JNull" by auto
  have g: "case own_prop data ''grids'' of
        JArr gs \<Rightarrow> \<exists>i. first_invalid_grid 0 gs = Some i
      | _ \<Rightarrow> True"
  proof (cases "own_prop data ''grids''")
    case (JArr gs)
    with assms obtain g where "g \<in> set gs" "\<not> isArray (own_prop (own_prop g ''config'') ''tuning'')"
      by auto
    then have "\<not> list_all validateGridStructure gs"
      unfolding list_all_shape by (auto simp: list_all_iff dest: grid_shape_tuning)
    then have "first_invalid_grid 0 gs \<noteq> None" by (simp add: first_invalid_grid_None)
    with JArr show ?thesis by auto
  qed simp_all
  show ?thesis unfolding validateLoadData_def validateLoadData_try_def get_prop_defined [OF d] bindE_Inr
    using False g by (auto split: jsval.splits)
qed

text \<open>
  Claim C3. When the parsed document has no \<^verbatim>\<open>grids\<close> array, or holds a grid whose
  \<^verbatim>\<open>config.tuning\<close> is not an array, \<open>loadCanvas\<close> fails with an error message and leaves
  the \<open>FileOperations\<close> object with its state manager (history, pointer, flags) as it was, and
  \<open>handleLoad\<close> leaves the workspace as it was; for a file named \<^verbatim>\<open>*.json\<close> the message is
  the reason \<open>validateLoadData\<close> gives. \<open>loadCanvas\<close> changes the state only when it succeeds,
  and then the history is empty.
\<close>

theorem loadCanvas_rejects_document:
  assumes "content f = Parsed data"
    and "\<not> isArray (own_prop data ''grids'')
     \<or> (\<exists>gs g. own_prop data ''grids'' = JArr gs \<and> g \<in> set gs
           \<and> \<not> isArray (own_prop (own_prop g ''config'') ''tuning''))"
  shows "\<exists>err. err \<noteq> []
      \<and> loadCanvas fo (Some f) = (Inl err, fo)
      \<and> handleLoad restoreCanvasState workspace fo f = (''Load failed: '' @ err, workspace, fo)
      \<and> (endsWith (toLowerCase (file_name f)) ''.json'' \<longrightarrow>
           (\<exists>reason. validateLoadData data = Inl reason
              \<and> err = ''Invalid file structure: '' @ reason))
      \<and> (\<forall>file r fo'. loadCanvas fo file = (r, fo') \<and> fo' \<noteq> fo \<longrightarrow>
           (\<exists>d n. r = Inr (d, n)) \<and> history (stateManager fo') = []
             \<and> currentIndex (stateManager fo') = - 1)"
proof -
  from validateLoadData_rejects [OF assms(2)] obtain reason where
    r: "validateLoadData data = Inl reason" by blast
  define err where "err =
    (if endsWith (toLowerCase (file_name f)) ''.json'' then ''Invalid file structure: '' @ reason
     else ''File must be a JSON file (.json extension)'')"
  have t: "loadCanvas_try (Some f) = Inl (Error err)"
    unfolding loadCanvas_try_def err_def using assms(1) r by simp
  then have l: "loadCanvas fo (Some f) = (Inl err, fo)" by (simp add: loadCanvas_def)
  then have h: "handleLoad restoreCanvasState workspace fo f = (''Load failed: '' @ err, workspace, fo)"
    by (simp add: handleLoad_def)
  have ne: "err \<noteq> []" unfolding err_def by simp
  have e: "endsWith (toLowerCase (file_name f)) ''.json'' \<longrightarrow>
           (\<exists>reason. validateLoadData data = Inl reason
              \<and> err = ''Invalid file structure: '' @ reason)"
    unfolding err_def using r by simp
  have only: "\<forall>file r fo'. loadCanvas fo file = (r, fo') \<and> fo' \<noteq> fo \<longrightarrow>
           (\<exists>d n. r = Inr (d, n)) \<and> history (stateManager fo') = []
             \<and> currentIndex (stateManager fo') = - 1"
    by (auto simp: loadCanvas_def clearHistory_def split: sum.splits prod.splits)
  from ne l h e only show ?thesis by blast
qed

theorem loadCanvas_rejects_document_witness:
  "content \<lparr>file_name = ''canvas.json'',
            content = Parsed (JObj [(''version'', JStr ''1.0''), (''canvas'', JObj [])])\<rparr>
     = Parsed (JObj [(''version'', JStr ''1.0''), (''canvas'', JObj [])])
   \<and> \<not> isArray (own_prop (JObj [(''version'', JStr ''1.0''), (''canvas'', JObj [])]) ''grids'')
   \<and> history (stateManager (FileOperations_new (record_call StateManager_new (test_call 0)))) \<noteq> []
   \<and> loadCanvas (FileOperations_new (record_call StateManager_new (test_call 0)))
        (Some \<lparr>file_name = ''canvas.json'',
               content = Parsed (JObj [(''version'', JStr ''1.0''), (''canvas'', JObj [])])\<rparr>)
      = (Inl ''Invalid file structure: Missing or invalid grids array'',
         FileOperations_new (record_call StateManager_new (test_call 0)))
   \<and> handleLoad (\<lambda>d w. d) JNull (FileOperations_new (record_call StateManager_new (test_call 0)))
        \<lparr>file_name = ''canvas.json'',
          content = Parsed (JObj [(''version'', JStr ''1.0''), (''canvas'', JObj [])])\<rparr>
      = (''Load failed: Invalid file structure: Missing or invalid grids array'', JNull,
         FileOperations_new (record_call StateManager_new (test_call 0)))"
proof -
  let ?doc = "JObj [(''version'', JStr ''1.0''), (''canvas'', JObj [])]"
  let ?f = "\<lparr>file_name = ''canvas.json'', content = Parsed ?doc\<rparr>"
  let ?fo = "FileOperations_new (record_call StateManager_new (test_call 0))"
  have c: "content ?f = Parsed ?doc" by simp
  have g: "\<not> isArray (own_prop ?doc ''grids'')" by (simp add: own_prop_def)
  have n: "endsWith (toLowerCase (file_name ?f)) ''.json''"
    by (simp add: endsWith_def toLowerCase_def)
  have v: "validateLoadData ?doc = Inl ''Missing or invalid grids array''"
    by (simp add: validateLoadData_def validateLoadData_try_def get_prop_obj bindE_Inr)
  have h: "history (stateManager ?fo) \<noteq> []"
    by (simp add: FileOperations_new_def sm_eval)
  from loadCanvas_rejects_document [OF c disjI1 [OF g], of ?fo "\<lambda>d w. d" JNull] n v c g h
  show ?thesis by auto
qed

section \<open>Properties of Grid\<close>

lemma note_id_0_3: "note_id ''grid_1'' (Some 0) (Some 3) = ''grid_1_0_3''"
  by code_simp

lemma note_id_NaN: "note_id ''grid_1'' None None = ''grid_1_NaN_NaN''"
  by code_simp

lemma indexOf_groupStates:
  "indexOf groupStates gs =
    (if gs = ''chromatic'' then 0 else if gs = ''group-1'' then 1 else if gs = ''group-2'' then 2
     else if gs = ''group-3'' then 3 else if gs = ''group-4'' then 4 else - 1)"
  by (simp add: groupStates_def)

lemma grid_notes_save_change: "grid_notes (save_change env ty d p g) = grid_notes g"
  by (simp add: save_change_def)

lemma cycleNoteGroup_never_removes:
  "cycleNoteGroup env g noteId n =
     save_change env ''note_group_change''
       (''Change note '' @ name n @ '' group to ''
          @ groupStates ! nat (js_rem (indexOf groupStates (groupState n) + 1) 5))
       (getCanvasState env g)
       (g\<lparr>grid_notes := AList.map_entry noteId
           (\<lambda>stored. n\<lparr>groupState := groupStates ! nat (js_rem (indexOf groupStates (groupState n) + 1) 5)\<rparr>)
           (grid_notes g)\<rparr>)"
proof -
  have len: "int (length groupStates) = 5" by (simp add: groupStates_def)
  have "\<not> (js_rem (indexOf groupStates (groupState n) + 1) 5 = 0 \<and> indexOf groupStates (groupState n) = 0)"
    by (auto simp: js_rem_def)
  then show ?thesis unfolding cycleNoteGroup_def Let_def len by (simp only: if_False)
qed

lemma next_group:
  "groupStates ! nat (js_rem (indexOf groupStates gs + 1) 5) =
     (if gs = ''chromatic'' then ''group-1''
      else if gs = ''group-1'' then ''group-2''
      else if gs = ''group-2'' then ''group-3''
      else if gs = ''group-3'' then ''group-4''
      else ''chromatic'')"
proof -
  have n: "groupStates ! nat (js_rem (k + 1) 5) =
     (if k = 0 then ''group-1'' else if k = 1 then ''group-2'' else if k = 2 then ''group-3''
      else if k = 3 then ''group-4'' else ''chromatic'')"
    if "k = - 1 \<or> k = 0 \<or> k = 1 \<or> k = 2 \<or> k = 3 \<or> k = 4" for k :: int
    using that by (auto simp: js_rem_def groupStates_def)
  have r: "indexOf groupStates gs = - 1 \<or> indexOf groupStates gs = 0 \<or> indexOf groupStates gs = 1
    \<or> indexOf groupStates gs = 2 \<or> indexOf groupStates gs = 3 \<or> indexOf groupStates gs = 4"
    unfolding indexOf_groupStates by simp
  show ?thesis unfolding n [OF r] unfolding indexOf_groupStates by simp
qed

lemma cycleNoteGroup_next:
  assumes "map_of (grid_notes g) noteId = Some n"
  shows "map_of (grid_notes (cycleNoteGroup env g noteId n)) noteId =
     Some (n\<lparr>groupState :=
        (if groupState n = ''chromatic'' then ''group-1''
         else if groupState n = ''group-1'' then ''group-2''
         else if groupState n = ''group-2'' then ''group-3''
         else if groupState n = ''group-3'' then ''group-4''
         else ''chromatic'')\<rparr>)"
  unfolding cycleNoteGroup_never_removes grid_notes_save_change next_group
  using assms by (simp add: map_of_map_entry)

lemma getNoteAt_G: "getNoteAt \<lparr>tuning_note = ''E'', tuning_semitone = 4\<rparr> 3 =
  Inr \<lparr>name = ''G'', isNatural = True, semitone = 7, cssClass = Some ''g'', displayText = ''G'',
       fret = 3, stringTuning = \<lparr>tuning_note = ''E'', tuning_semitone = 4\<rparr>\<rparr>"
  by (simp add: getNoteAt_def js_add_safe safe_integer_small js_rem_def chromaticScale_def
      noteClassMap_def)

text \<open>
  Claim C4, as stated: at a coordinate that holds a note, \<open>placeNote\<close> fails and changes
  nothing. With the note G at fret 3 of the first string in state group-2, \<open>placeNote\<close> at
  that coordinate returns normally and has replaced the note by one in state chromatic.
\<close>

theorem placeNote_occupied_counterexample:
  "map_of (grid_notes (new_grid [(''grid_1_0_3'', g_note ''group-2'')]))
        (note_id ''grid_1'' (Some 0) (Some 3))
     = Some (g_note ''group-2'')
   \<and> map_sum id grid_notes
        (placeNote test_env (new_grid [(''grid_1_0_3'', g_note ''group-2'')]) (Some 0) (Some 3))
     = Inr [(''grid_1_0_3'', g_note ''chromatic'')]"
proof -
  let ?g = "new_grid [(''grid_1_0_3'', g_note ''group-2'')]"
  have e: "element_id ?g = ''grid_1''"
    "grid_notes ?g = [(''grid_1_0_3'', g_note ''group-2'')]"
    "js_index (config_tuning ?g) 0 = Some \<lparr>tuning_note = ''E'', tuning_semitone = 4\<rparr>"
    by (simp_all add: new_grid_def js_index_def standardTuning_def)
  show ?thesis
    by (simp add: placeNote_def Let_def e getNoteAt_G bindE_Inr note_id_0_3
        grid_notes_save_change) (simp add: g_note_def)
qed

lemma map_of_update_other: "k \<noteq> k' \<Longrightarrow> map_of (AList.update k' v xs) k = map_of xs k"
  by (simp add: update_conv)

text \<open>
  Claim C4, amended. \<open>placeNote\<close> has no occupied-coordinate failure. For a string index
  inside the tuning and a fret that is a safe integer, with the tuning semitone plus the
  fret a safe integer that is not negative, it stores under the coordinate's note id a note
  whose pitch \<open>getNoteAt\<close> computed and whose group state is chromatic, whatever was stored
  there, and leaves the other notes as they were. On an unlocked grid a click on the
  position element of the coordinate calls \<open>placeNote\<close> when the coordinate is free; when it
  holds a note the click calls \<open>cycleNoteGroup\<close> on that note instead, which keeps the note
  on the grid. A click on the element of a placed note itself carries no coordinate: the
  handler finds no note under the id it builds from NaN and NaN, and \<open>placeNote\<close> throws.
\<close>

theorem placeNote_inserts_chromatic:
  assumes "0 \<le> si" "si < int (length (config_tuning g))"
    and "0 \<le> tuning_semitone (config_tuning g ! nat si) + fr"
    and "safe_integer fr" "safe_integer (tuning_semitone (config_tuning g ! nat si) + fr)"
  shows "\<exists>info g'.
      getNoteAt (config_tuning g ! nat si) fr = Inr info
    \<and> semitone info = (tuning_semitone (config_tuning g ! nat si) + fr) mod 12
    \<and> placeNote env g (Some si) (Some fr) = Inr g'
    \<and> map_of (grid_notes g') (note_id (element_id g) (Some si) (Some fr)) =
        Some \<lparr>name = name info, isNatural = isNatural info, semitone = semitone info,
              cssClass = cssClass info, displayText = displayText info, fret = fr,
              stringTuning = config_tuning g ! nat si,
              stringIndex = si, groupState = ''chromatic''\<rparr>
    \<and> (\<forall>k. k \<noteq> note_id (element_id g) (Some si) (Some fr) \<longrightarrow>
          map_of (grid_notes g') k = map_of (grid_notes g) k)
    \<and> (\<not> isLocked g
        \<and> map_of (grid_notes g) (note_id (element_id g) (Some si) (Some fr)) = None \<longrightarrow>
          handleNoteClick env g (PositionElement si fr) = Inr g')
    \<and> (\<forall>n. \<not> isLocked g
          \<and> map_of (grid_notes g) (note_id (element_id g) (Some si) (Some fr)) = Some n \<longrightarrow>
          handleNoteClick env g (PositionElement si fr)
            = Inr (cycleNoteGroup env g (note_id (element_id g) (Some si) (Some fr)) n)
          \<and> map_of (grid_notes
                (cycleNoteGroup env g (note_id (element_id g) (Some si) (Some fr)) n))
               (note_id (element_id g) (Some si) (Some fr)) \<noteq> None)
    \<and> (\<not> isLocked g \<and> map_of (grid_notes g) (note_id (element_id g) None None) = None \<longrightarrow>
          handleNoteClick env g NoteElement = Inl TypeError)"
proof -
  let ?t = "config_tuning g ! nat si"
  let ?id = "note_id (element_id g) (Some si) (Some fr)"
  from getNoteAt_nonneg [OF assms(3) assms(5)] obtain info where
    info: "getNoteAt ?t fr = Inr info"
      "semitone info = (tuning_semitone ?t + fr) mod 12" by blast
  then have st: "stringTuning info = ?t"
    by (auto simp: getNoteAt_def Let_def split: option.splits)
  let ?n = "\<lparr>name = name info, isNatural = isNatural info, semitone = semitone info,
              cssClass = cssClass info, displayText = displayText info, fret = fr,
              stringTuning = ?t, stringIndex = si, groupState = ''chromatic''\<rparr>"
  let ?g' = "save_change env ''note_place''
                  (''Place '' @ name info @ '' note at fret '' @ string_of_int fr
                     @ '', string '' @ string_of_int (si + 1))
                  (getCanvasState env g)
                  (g\<lparr>grid_notes := AList.update ?id ?n (grid_notes g)\<rparr>)"
  from assms(1,2) have ix: "js_index (config_tuning g) si = Some ?t"
    by (simp add: js_index_def)
  have p: "placeNote env g (Some si) (Some fr) = Inr ?g'"
    by (simp add: placeNote_def Let_def ix info bindE_Inr st)
  have n: "map_of (grid_notes ?g') ?id = Some ?n"
    unfolding grid_notes_save_change by (simp add: update_conv)
  have o: "\<forall>k. k \<noteq> ?id \<longrightarrow> map_of (grid_notes ?g') k = map_of (grid_notes g) k"
    unfolding grid_notes_save_change by (simp add: map_of_update_other)
  have f: "\<not> isLocked g \<and> map_of (grid_notes g) ?id = None \<longrightarrow>
          handleNoteClick env g (PositionElement si fr) = Inr ?g'"
    unfolding p [symmetric] by (simp add: handleNoteClick_def Let_def)
  have c: "\<forall>n. \<not> isLocked g \<and> map_of (grid_notes g) ?id = Some n \<longrightarrow>
          handleNoteClick env g (PositionElement si fr) = Inr (cycleNoteGroup env g ?id n)
          \<and> map_of (grid_notes (cycleNoteGroup env g ?id n)) ?id \<noteq> None"
    by (simp add: handleNoteClick_def Let_def cycleNoteGroup_next)
  have e: "\<not> isLocked g \<and> map_of (grid_notes g) (note_id (element_id g) None None) = None \<longrightarrow>
          handleNoteClick env g NoteElement = Inl TypeError"
    by (simp add: handleNoteClick_def Let_def placeNote_def)
  from info(1) info(2) p n o f c e show ?thesis by blast
qed

theorem placeNote_inserts_chromatic_witness:
  "(0::int) \<le> 0 \<and> 0 < int (length (config_tuning (new_grid [])))
   \<and> 0 \<le> tuning_semitone (config_tuning (new_grid []) ! nat 0) + 3
   \<and> safe_integer 3 \<and> safe_integer (tuning_semitone (config_tuning (new_grid []) ! nat 0) + 3)
   \<and> \<not> isLocked (new_grid [])
   \<and> map_of (grid_notes (new_grid [])) (note_id (element_id (new_grid [])) (Some 0) (Some 3))
        = None
   \<and> map_sum id grid_notes (placeNote test_env (new_grid []) (Some 0) (Some 3))
        = Inr [(''grid_1_0_3'', g_note ''chromatic'')]
   \<and> handleNoteClick test_env (new_grid []) (PositionElement 0 3)
        = placeNote test_env (new_grid []) (Some 0) (Some 3)
   \<and> map_of (grid_notes (new_grid [(''grid_1_0_3'', g_note ''chromatic'')]))
        (note_id (element_id (new_grid [(''grid_1_0_3'', g_note ''chromatic'')])) (Some 0) (Some 3))
        = Some (g_note ''chromatic'')
   \<and> map_sum id grid_notes
        (handleNoteClick test_env (new_grid [(''grid_1_0_3'', g_note ''chromatic'')])
           (PositionElement 0 3))
        = Inr [(''grid_1_0_3'', g_note ''group-1'')]
   \<and> map_of (grid_notes (new_grid [(''grid_1_0_3'', g_note ''chromatic'')]))
        (note_id (element_id (new_grid [(''grid_1_0_3'', g_note ''chromatic'')])) None None)
        = None
   \<and> handleNoteClick test_env (new_grid [(''grid_1_0_3'', g_note ''chromatic'')]) NoteElement
        = Inl TypeError"
proof -
  let ?g = "new_grid []"
  let ?h = "new_grid [(''grid_1_0_3'', g_note ''chromatic'')]"
  have e: "element_id ?g = ''grid_1''" "grid_notes ?g = []" "\<not> isLocked ?g"
    "js_index (config_tuning ?g) 0 = Some \<lparr>tuning_note = ''E'', tuning_semitone = 4\<rparr>"
    "config_tuning ?g ! 0 = \<lparr>tuning_note = ''E'', tuning_semitone = 4\<rparr>"
    "length (config_tuning ?g) = 6"
    by (simp_all add: new_grid_def js_index_def standardTuning_def)
  have e': "element_id ?h = ''grid_1''" "\<not> isLocked ?h"
    "grid_notes ?h = [(''grid_1_0_3'', g_note ''chromatic'')]"
    "config_tuning ?h ! 0 = \<lparr>tuning_note = ''E'', tuning_semitone = 4\<rparr>"
    "length (config_tuning ?h) = 6"
    by (simp_all add: new_grid_def standardTuning_def)
  have p: "map_sum id grid_notes (placeNote test_env ?g (Some 0) (Some 3))
        = Inr [(''grid_1_0_3'', g_note ''chromatic'')]"
    by (simp add: placeNote_def Let_def e getNoteAt_G bindE_Inr note_id_0_3
        grid_notes_save_change) (simp add: g_note_def)
  have h: "handleNoteClick test_env ?g (PositionElement 0 3)
        = placeNote test_env ?g (Some 0) (Some 3)"
    by (simp add: handleNoteClick_def Let_def e)
  have n: "groupStates ! nat (js_rem (indexOf groupStates (groupState (g_note ''chromatic'')) + 1) 5)
     = ''group-1''"
    unfolding next_group by (simp add: g_note_def)
  have "grid_notes (cycleNoteGroup test_env ?h ''grid_1_0_3'' (g_note ''chromatic'')) =
     [(''grid_1_0_3'', g_note ''group-1'')]"
    unfolding cycleNoteGroup_never_removes grid_notes_save_change n
    by (simp add: e') (simp add: g_note_def)
  then have c: "map_sum id grid_notes (handleNoteClick test_env ?h (PositionElement 0 3))
        = Inr [(''grid_1_0_3'', g_note ''group-1'')]"
    by (simp add: handleNoteClick_def Let_def e' note_id_0_3)
  from placeNote_inserts_chromatic [of 0 ?g 3 test_env]
    placeNote_inserts_chromatic [of 0 ?h 3 test_env] p h c show ?thesis
    by (auto simp: e e' note_id_0_3 note_id_NaN safe_integer_small)
qed

lemma map_fst_map_entry: "map fst (AList.map_entry k f xs) = map fst xs"
  by (induction xs) auto

lemma groupStates_nth:
  "i < 5 \<Longrightarrow> (if groupStates ! i = ''chromatic'' then ''group-1''
         else if groupStates ! i = ''group-1'' then ''group-2''
         else if groupStates ! i = ''group-2'' then ''group-3''
         else if groupStates ! i = ''group-3'' then ''group-4''
         else ''chromatic'') = groupStates ! ((i + 1) mod 5)"
proof -
  assume "i < 5"
  then have "i = 0 \<or> i = 1 \<or> i = 2 \<or> i = 3 \<or> i = 4" by arith
  then show ?thesis by (auto simp: groupStates_def)
qed

text \<open>
  Claim C1, amended. For every note present on a grid, \<open>cycleNoteGroup\<close> advances its group
  state one step through the ordered cycle chromatic, group-1, group-2, group-3, group-4,
  and the step after group-4 goes back to chromatic: the note stays on the grid, the other
  notes and the order of the notes are unchanged.
\<close>

theorem cycleNoteGroup_cycles:
  assumes "map_of (grid_notes g) noteId = Some n"
  shows "(\<forall>i<5. groupState n = groupStates ! i \<longrightarrow>
            map_of (grid_notes (cycleNoteGroup env g noteId n)) noteId
              = Some (n\<lparr>groupState := groupStates ! ((i + 1) mod 5)\<rparr>))
       \<and> (groupState n = ''group-4'' \<longrightarrow>
            map_of (grid_notes (cycleNoteGroup env g noteId n)) noteId
              = Some (n\<lparr>groupState := ''chromatic''\<rparr>))
       \<and> (\<forall>k. k \<noteq> noteId \<longrightarrow>
            map_of (grid_notes (cycleNoteGroup env g noteId n)) k = map_of (grid_notes g) k)
       \<and> map fst (grid_notes (cycleNoteGroup env g noteId n)) = map fst (grid_notes g)"
proof (intro conjI allI impI)
  fix i :: nat assume lt: "i < 5" and eq: "groupState n = groupStates ! i"
  show "map_of (grid_notes (cycleNoteGroup env g noteId n)) noteId
              = Some (n\<lparr>groupState := groupStates ! ((i + 1) mod 5)\<rparr>)"
    unfolding cycleNoteGroup_next [OF assms] eq groupStates_nth [OF lt] ..
next
  assume "groupState n = ''group-4''"
  with cycleNoteGroup_next [OF assms, of env]
  show "map_of (grid_notes (cycleNoteGroup env g noteId n)) noteId
              = Some (n\<lparr>groupState := ''chromatic''\<rparr>)"
    by simp
next
  fix k assume "k \<noteq> noteId"
  then show "map_of (grid_notes (cycleNoteGroup env g noteId n)) k = map_of (grid_notes g) k"
    unfolding cycleNoteGroup_never_removes grid_notes_save_change
    by (simp add: map_of_map_entry)
next
  show "map fst (grid_notes (cycleNoteGroup env g noteId n)) = map fst (grid_notes g)"
    unfolding cycleNoteGroup_never_removes grid_notes_save_change
    by (simp add: map_fst_map_entry)
qed

theorem cycleNoteGroup_cycles_witness:
  "map_of (grid_notes (new_grid [(''grid_1_0_3'', g_note ''group-3'')])) ''grid_1_0_3''
     = Some (g_note ''group-3'')
   \<and> (3::nat) < 5 \<and> groupState (g_note ''group-3'') = groupStates ! 3
   \<and> map_of (grid_notes (cycleNoteGroup test_env
        (new_grid [(''grid_1_0_3'', g_note ''group-3'')]) ''grid_1_0_3'' (g_note ''group-3'')))
        ''grid_1_0_3''
     = Some (g_note ''group-4'')
   \<and> map_of (grid_notes (new_grid [(''grid_1_0_3'', g_note ''group-4'')])) ''grid_1_0_3''
     = Some (g_note ''group-4'')
   \<and> groupState (g_note ''group-4'') = ''group-4''
   \<and> map_of (grid_notes (cycleNoteGroup test_env
        (new_grid [(''grid_1_0_3'', g_note ''group-4'')]) ''grid_1_0_3'' (g_note ''group-4'')))
        ''grid_1_0_3''
     = Some (g_note ''chromatic'')"
proof -
  have a: "map_of (grid_notes (new_grid [(''grid_1_0_3'', g_note gs)])) ''grid_1_0_3''
     = Some (g_note gs)" for gs
    by (simp add: new_grid_def)
  have b: "groupState (g_note gs) = gs" "(g_note gs)\<lparr>groupState := gs'\<rparr> = g_note gs'" for gs gs'
    by (simp_all add: g_note_def)
  have c: "groupStates ! 3 = ''group-3''" "groupStates ! 4 = ''group-4''"
    by (simp_all add: groupStates_def)
  have t3: "map_of (grid_notes (cycleNoteGroup test_env
        (new_grid [(''grid_1_0_3'', g_note ''group-3'')]) ''grid_1_0_3'' (g_note ''group-3'')))
        ''grid_1_0_3'' = Some (g_note ''group-4'')"
    using cycleNoteGroup_cycles [OF a [of "''group-3''"], of test_env,
        THEN conjunct1, rule_format, of 3]
    by (simp add: b c)
  have t4: "map_of (grid_notes (cycleNoteGroup test_env
        (new_grid [(''grid_1_0_3'', g_note ''group-4'')]) ''grid_1_0_3'' (g_note ''group-4'')))
        ''grid_1_0_3'' = Some (g_note ''chromatic'')"
    using cycleNoteGroup_cycles [OF a [of "''group-4''"], of test_env,
        THEN conjunct2, THEN conjunct1]
    by (simp add: b)
  from t3 t4 show ?thesis by (simp add: a b c)
qed

text \<open>
  Claim C1, as stated: the step that would wrap from group-4 back to chromatic removes the
  note instead of setting its group state. A click on the note G at fret 3 of the first
  string, in state group-4, leaves the note on the grid in state chromatic: the call of
  \<open>removeNote\<close> is guarded by \<open>nextIndex = 0\<close> and \<open>currentIndex = 0\<close>, and \<open>nextIndex\<close> is 0
  only after group-4.
\<close>

theorem cycleNoteGroup_group4_counterexample:
  "map_of (grid_notes (new_grid [(''grid_1_0_3'', g_note ''group-4'')])) ''grid_1_0_3''
     = Some (g_note ''group-4'')
   \<and> groupState (g_note ''group-4'') = groupStates ! 4
   \<and> grid_notes (cycleNoteGroup test_env (new_grid [(''grid_1_0_3'', g_note ''group-4'')])
        ''grid_1_0_3'' (g_note ''group-4''))
     = [(''grid_1_0_3'', g_note ''chromatic'')]
   \<and> map_sum id grid_notes
        (handleNoteClick test_env (new_grid [(''grid_1_0_3'', g_note ''group-4'')])
           (PositionElement 0 3))
     = Inr [(''grid_1_0_3'', g_note ''chromatic'')]"
proof -
  let ?g = "new_grid [(''grid_1_0_3'', g_note ''group-4'')]"
  have e: "element_id ?g = ''grid_1''" "\<not> isLocked ?g"
    "grid_notes ?g = [(''grid_1_0_3'', g_note ''group-4'')]"
    by (simp_all add: new_grid_def)
  have h: "handleNoteClick test_env ?g (PositionElement 0 3) =
    Inr (cycleNoteGroup test_env ?g ''grid_1_0_3'' (g_note ''group-4''))"
    by (simp add: handleNoteClick_def Let_def e note_id_0_3)
  have n: "groupStates ! nat (js_rem (indexOf groupStates (groupState (g_note ''group-4'')) + 1) 5)
     = ''chromatic''"
    unfolding next_group by (simp add: g_note_def)
  have c: "grid_notes (cycleNoteGroup test_env ?g ''grid_1_0_3'' (g_note ''group-4'')) =
     [(''grid_1_0_3'', g_note ''chromatic'')]"
    unfolding cycleNoteGroup_never_removes grid_notes_save_change n
    by (simp add: e) (simp add: g_note_def)
  have s: "groupState (g_note ''group-4'') = groupStates ! 4"
    by (simp add: g_note_def groupStates_def)
  from h c s show ?thesis by (simp add: e)
qed

end
